theory Spec2Isabelle
  imports Complex_Main "HOL-Library.Word"
begin

section \<open>Python results\<close>

text \<open>
  Every Python function of the repository is modelled in the exception monad: a call
  either raises (\<open>Inl\<close> of the exception) or returns (\<open>Inr\<close> of the value).
  The repository declares no exception class of its own, so the only exceptions of
  the model are the built-in ones that Python and the tensor library raise.
\<close>

datatype py_error = IndexError | ValueError | RuntimeError

definition bind_result :: "py_error + 'a \<Rightarrow> ('a \<Rightarrow> py_error + 'b) \<Rightarrow> py_error + 'b" where
  "bind_result r f = (case r of Inl e \<Rightarrow> Inl e | Inr x \<Rightarrow> f x)"

section \<open>Devices: \<open>network/utils/utils_mps_fallback.py\<close>\<close>

text \<open>
  A \<open>torch.device\<close> is its type string (\<open>'cpu'\<close>, \<open>'cuda'\<close>, \<open>'mps'\<close>, ...) and an
  optional ordinal. \<open>torch.device('cpu')\<close> has no ordinal.
\<close>

record device =
  type :: string
  index :: "nat option"

definition torch_device :: "string \<Rightarrow> device" where
  "torch_device s = \<lparr>type = s, index = None\<rparr>"

definition fallback_to_cpu_if_mps :: "device \<Rightarrow> py_error + device" where
  "fallback_to_cpu_if_mps device =
     (if type device = ''mps'' then Inr (torch_device ''cpu'') else Inr device)"

section \<open>The autocast decorator: \<open>network/utils/utils_decorators.py\<close>\<close>

text \<open>
  \<open>cuda_amp_autocast(enabled)\<close> returns a decorator; applied to \<open>func\<close> the decorator
  asks \<open>torch.cuda.is_available()\<close>, a boolean of the environment, and either hands
  \<open>func\<close> to the library's \<open>torch.cuda.amp.autocast(enabled=enabled)\<close> or returns it
  as it is. The environment's answer and the library decorator are parameters of the
  model; \<open>'f\<close> is the type of callables.
\<close>

definition cuda_amp_autocast ::
  "bool \<Rightarrow> (bool \<Rightarrow> 'f \<Rightarrow> 'f) \<Rightarrow> bool \<Rightarrow> 'f \<Rightarrow> py_error + 'f" where
  "cuda_amp_autocast cuda_is_available autocast enabled func =
     (if cuda_is_available then Inr (autocast enabled func) else Inr func)"

text \<open>
  The specification's reading of the same helper, for comparison: the branch is taken
  on a device-type string, the CUDA case being the string \<open>'cuda'\<close>.
\<close>

definition cuda_amp_autocast_by_device_type ::
  "string \<Rightarrow> (bool \<Rightarrow> 'f \<Rightarrow> 'f) \<Rightarrow> bool \<Rightarrow> 'f \<Rightarrow> py_error + 'f" where
  "cuda_amp_autocast_by_device_type device_type autocast enabled func =
     (if device_type = ''cuda'' then Inr (autocast enabled func) else Inr func)"

text \<open>Callables, and the library decorator as a constructor that records the wrapping.\<close>

datatype callable = Func string | Autocast bool callable

section \<open>Tensors\<close>

text \<open>
  A tensor is the device it lives on, its shape and its elements in row-major order.
\<close>

record 'a tensor =
  device :: device
  shape :: "nat list"
  elems :: "'a list"

definition numel :: "nat list \<Rightarrow> nat" where
  "numel s = prod_list s"

definition wf_tensor :: "'a tensor \<Rightarrow> bool" where
  "wf_tensor t = (length (elems t) = numel (shape t))"

text \<open>
  Row-major offsets. \<open>ravel s ix\<close> is the offset of the multi-index \<open>ix\<close> in a tensor
  of shape \<open>s\<close>, \<open>unravel s n\<close> the multi-index of offset \<open>n\<close>; both work from the
  last dimension, which varies fastest.
\<close>

fun ravel_rev :: "nat list \<Rightarrow> nat list \<Rightarrow> nat" where
  "ravel_rev (d # ds) (k # ks) = k + d * ravel_rev ds ks"
| "ravel_rev _ _ = 0"

fun unravel_rev :: "nat list \<Rightarrow> nat \<Rightarrow> nat list" where
  "unravel_rev [] n = []"
| "unravel_rev (d # ds) n = (n mod d) # unravel_rev ds (n div d)"

definition ravel :: "nat list \<Rightarrow> nat list \<Rightarrow> nat" where
  "ravel s ix = ravel_rev (rev s) (rev ix)"

definition unravel :: "nat list \<Rightarrow> nat \<Rightarrow> nat list" where
  "unravel s n = rev (unravel_rev (rev s) n)"

definition valid_index :: "nat list \<Rightarrow> nat list \<Rightarrow> bool" where
  "valid_index s ix = (length ix = length s \<and> list_all2 (<) ix s)"

definition tget :: "'a tensor \<Rightarrow> nat list \<Rightarrow> 'a" where
  "tget t ix = elems t ! ravel (shape t) ix"

definition tgen :: "device \<Rightarrow> nat list \<Rightarrow> (nat list \<Rightarrow> 'a) \<Rightarrow> 'a tensor" where
  "tgen d s f = \<lparr>device = d, shape = s, elems = map (\<lambda>n. f (unravel s n)) [0..<numel s]\<rparr>"

subsection \<open>Element types\<close>

text \<open>
  Residue indices are 64-bit signed integers (\<open>torch.int64\<close>): arithmetic on them
  wraps around, \<open>torch.sign\<close> and the comparison with zero read the signed value, and
  \<open>torch.abs\<close> of the least value \<open>-2^63\<close> is that value again.
\<close>

type_synonym int64 = "64 word"

definition int64_min :: int64 where
  "int64_min = - (2 ^ 63)"

definition torch_sign64 :: "int64 \<Rightarrow> int64" where
  "torch_sign64 w = (if 0 < sint w then 1 else if sint w = 0 then 0 else - 1)"

definition torch_abs64 :: "int64 \<Rightarrow> int64" where
  "torch_abs64 w = (if sint w < 0 then - w else w)"

text \<open>
  Features are floating-point numbers: a real number, an infinity, or not-a-number.
  The rounding of finite results is not modelled; the special values are, since the
  logarithm of a negative number is not-a-number and propagates through every
  operation after it.
\<close>

datatype fp = Num real | PosInf | NegInf | NaN

definition fp_of_int64 :: "int64 \<Rightarrow> fp" where
  "fp_of_int64 w = Num (real_of_int (sint w))"

fun fp_add :: "fp \<Rightarrow> fp \<Rightarrow> fp" where
  "fp_add (Num a) (Num b) = Num (a + b)"
| "fp_add NaN _ = NaN"
| "fp_add _ NaN = NaN"
| "fp_add PosInf NegInf = NaN"
| "fp_add NegInf PosInf = NaN"
| "fp_add PosInf _ = PosInf"
| "fp_add _ PosInf = PosInf"
| "fp_add NegInf _ = NegInf"
| "fp_add _ NegInf = NegInf"

fun fp_scale :: "real \<Rightarrow> fp \<Rightarrow> fp" where
  "fp_scale a (Num b) = Num (a * b)"
| "fp_scale a NaN = NaN"
| "fp_scale a PosInf = (if 0 < a then PosInf else if a < 0 then NegInf else NaN)"
| "fp_scale a NegInf = (if 0 < a then NegInf else if a < 0 then PosInf else NaN)"

fun fp_mul :: "fp \<Rightarrow> fp \<Rightarrow> fp" where
  "fp_mul (Num a) v = fp_scale a v"
| "fp_mul v (Num b) = fp_scale b v"
| "fp_mul NaN _ = NaN"
| "fp_mul _ NaN = NaN"
| "fp_mul PosInf PosInf = PosInf"
| "fp_mul NegInf NegInf = PosInf"
| "fp_mul PosInf NegInf = NegInf"
| "fp_mul NegInf PosInf = NegInf"

text \<open>\<open>torch.log\<close> and \<open>torch.clamp(v, lo, hi)\<close> on one element.\<close>

fun torch_log :: "fp \<Rightarrow> fp" where
  "torch_log (Num v) = (if 0 < v then Num (ln v) else if v = 0 then NegInf else NaN)"
| "torch_log PosInf = PosInf"
| "torch_log NegInf = NaN"
| "torch_log NaN = NaN"

fun torch_clamp :: "fp \<Rightarrow> real \<Rightarrow> real \<Rightarrow> fp" where
  "torch_clamp (Num v) lo hi = Num (min (max v lo) hi)"
| "torch_clamp PosInf lo hi = Num (min (max hi lo) hi)"
| "torch_clamp NegInf lo hi = Num (min lo hi)"
| "torch_clamp NaN lo hi = NaN"

subsection \<open>Library operations\<close>

text \<open>Elementwise functions (\<open>torch.sign\<close>, \<open>torch.abs\<close>, \<open>torch.log\<close>, \<open>+ 1.0\<close>, ...).\<close>

definition tmap :: "('a \<Rightarrow> 'b) \<Rightarrow> 'a tensor \<Rightarrow> 'b tensor" where
  "tmap f t = \<lparr>device = device t, shape = shape t, elems = map f (elems t)\<rparr>"

text \<open>\<open>t.to(d)\<close>.\<close>

definition to_device :: "device \<Rightarrow> 'a tensor \<Rightarrow> 'a tensor" where
  "to_device d t = t\<lparr>device := d\<rparr>"

text \<open>
  An index expression of \<open>n\<close> full slices and one \<open>None\<close> in position \<open>k\<close>:
  \<open>t[:,None,:]\<close> is \<open>index_none 2 1 t\<close> and \<open>t[:,:,None]\<close> is \<open>index_none 2 2 t\<close>.
  It raises IndexError when the tensor has fewer than \<open>n\<close> dimensions.
\<close>

definition index_none :: "nat \<Rightarrow> nat \<Rightarrow> 'a tensor \<Rightarrow> py_error + 'a tensor" where
  "index_none n k t =
     (if n \<le> length (shape t)
      then Inr (t\<lparr>shape := take k (shape t) @ 1 # drop k (shape t)\<rparr>)
      else Inl IndexError)"

text \<open>\<open>t.unsqueeze(-1)\<close>.\<close>

definition unsqueeze_last :: "'a tensor \<Rightarrow> 'a tensor" where
  "unsqueeze_last t = t\<lparr>shape := shape t @ [1]\<rparr>"

text \<open>
  Broadcasting binary operations. The shapes are aligned at the right and padded with
  ones; two dimensions are compatible when they are equal or one of them is one. An
  operand is read at the result's index with its dimensions of size one pinned to
  zero. Operands on different devices raise.
\<close>

definition pad_shape :: "nat \<Rightarrow> nat list \<Rightarrow> nat list" where
  "pad_shape r s = replicate (r - length s) 1 @ s"

definition broadcastable :: "nat list \<Rightarrow> nat list \<Rightarrow> bool" where
  "broadcastable sa sb = list_all2 (\<lambda>a b. a = b \<or> a = 1 \<or> b = 1) sa sb"

definition broadcast_shape :: "nat list \<Rightarrow> nat list \<Rightarrow> nat list" where
  "broadcast_shape sa sb = map2 (\<lambda>a b. if a = 1 then b else a) sa sb"

definition broadcast_index :: "nat list \<Rightarrow> nat list \<Rightarrow> nat list" where
  "broadcast_index s ix =
     map2 (\<lambda>d k. if d = 1 then 0 else k) s (drop (length ix - length s) ix)"

definition broadcast2 :: "('a \<Rightarrow> 'b \<Rightarrow> 'c) \<Rightarrow> 'a tensor \<Rightarrow> 'b tensor \<Rightarrow> py_error + 'c tensor" where
  "broadcast2 f a b =
     (let r = max (length (shape a)) (length (shape b));
          sa = pad_shape r (shape a);
          sb = pad_shape r (shape b)
      in if device a = device b \<and> broadcastable sa sb
         then Inr (tgen (device a) (broadcast_shape sa sb)
                 (\<lambda>ix. f (tget a (broadcast_index (shape a) ix))
                          (tget b (broadcast_index (shape b) ix))))
         else Inl RuntimeError)"

text \<open>
  \<open>torch.where(c)\<close> with one argument: one index tensor per dimension of \<open>c\<close>, listing
  the positions of the true elements in row-major order. Positions are bounded by the
  dimensions of \<open>c\<close>; they and the arithmetic on them are kept in \<open>int\<close>, which agrees
  with 64-bit arithmetic as long as the node count stays below \<open>2^63\<close>, and a larger
  one is refused by \<open>reshape\<close> below.
\<close>

definition torch_where :: "bool tensor \<Rightarrow> int tensor list" where
  "torch_where c =
     (let hits = map (unravel (shape c)) (filter (\<lambda>n. elems c ! n) [0..<numel (shape c)])
      in map (\<lambda>k. \<lparr>device = device c, shape = [length hits],
                    elems = map (\<lambda>ix. int (ix ! k)) hits\<rparr>)
           [0..<length (shape c)])"

text \<open>
  \<open>t.reshape(n, -1)\<close>: the second dimension is inferred. The library raises when the
  number of elements is not a multiple of \<open>n\<close>, when \<open>n\<close> is zero, where the inferred
  dimension would be ambiguous, and when \<open>n\<close> does not fit a 64-bit signed integer.
\<close>

definition reshape_infer :: "nat \<Rightarrow> 'a tensor \<Rightarrow> py_error + 'a tensor" where
  "reshape_infer n t =
     (if 0 < n \<and> n < 2 ^ 63 \<and> numel (shape t) mod n = 0
      then Inr (t\<lparr>shape := [n, numel (shape t) div n]\<rparr>)
      else Inl RuntimeError)"

text \<open>\<open>torch.stack([a, b])\<close>.\<close>

definition torch_stack2 :: "'a tensor \<Rightarrow> 'a tensor \<Rightarrow> py_error + 'a tensor" where
  "torch_stack2 a b =
     (if shape a = shape b \<and> device a = device b
      then Inr \<lparr>device = device a, shape = 2 # shape a, elems = elems a @ elems b\<rparr>
      else Inl RuntimeError)"

text \<open>
  \<open>t[b, i, j]\<close> with three one-dimensional index tensors of one length: entry \<open>e\<close> of the
  result is the slice of \<open>t\<close> at \<open>(b[e], i[e], j[e])\<close>. A negative index counts from the
  end; an index out of range raises IndexError. The index tensors are on the CPU or
  on the device of \<open>t\<close>.
\<close>

definition wrap_index :: "nat \<Rightarrow> int \<Rightarrow> nat option" where
  "wrap_index n v =
     (if 0 \<le> v \<and> v < int n then Some (nat v)
      else if - int n \<le> v \<and> v < 0 then Some (nat (v + int n))
      else None)"

definition index3 :: "'a tensor \<Rightarrow> int tensor \<Rightarrow> int tensor \<Rightarrow> int tensor \<Rightarrow> py_error + 'a tensor" where
  "index3 t b i j =
     (case shape t of
        d0 # d1 # d2 # rest \<Rightarrow>
          if length (shape b) = 1 \<and> shape i = shape b \<and> shape j = shape b
          then
            if list_all (\<lambda>w. device w = device t \<or> device w = torch_device ''cpu'') [b, i, j]
            then
              let pos = map (\<lambda>e. [wrap_index d0 (elems b ! e), wrap_index d1 (elems i ! e),
                                   wrap_index d2 (elems j ! e)]) [0..<hd (shape b)]
              in if list_all (list_all (\<lambda>p. p \<noteq> None)) pos
                 then Inr (tgen (device t) (hd (shape b) # rest)
                        (\<lambda>ix. tget t (map the (pos ! hd ix) @ tl ix)))
                 else Inl IndexError
            else Inl RuntimeError
          else Inl IndexError
      | _ \<Rightarrow> Inl IndexError)"

section \<open>Sequence separation and the graph: \<open>network/InitStrGenerator.py\<close>\<close>

text \<open>
  \<open>get_seqsep(idx)\<close>: the signed, clamped logarithm of the pairwise differences of the
  residue indices. The statements of the source are kept one by one.
\<close>

definition get_seqsep :: "int64 tensor \<Rightarrow> py_error + fp tensor" where
  "get_seqsep idx =
     bind_result (index_none 2 1 idx) (\<lambda>idx_row.
     bind_result (index_none 2 2 idx) (\<lambda>idx_col.
     bind_result (broadcast2 (-) idx_row idx_col) (\<lambda>seqsep.
       let sign = tmap torch_sign64 seqsep;
           seqsep = tmap torch_log
                      (tmap (\<lambda>a. fp_add (fp_of_int64 a) (Num 1.0)) (tmap torch_abs64 seqsep));
           seqsep = tmap (\<lambda>v. torch_clamp v 0.0 5.5) seqsep
       in bind_result (broadcast2 (\<lambda>s v. fp_mul (fp_of_int64 s) v) sign seqsep) (\<lambda>seqsep.
          Inr (unsqueeze_last seqsep)))))"

text \<open>
  One entry of \<open>get_seqsep\<close> as a function of the (wrapped) index difference, and its
  value on a difference that is not the least 64-bit integer.
\<close>

definition seqsep_entry :: "int64 \<Rightarrow> fp" where
  "seqsep_entry w =
     fp_mul (fp_of_int64 (torch_sign64 w))
       (torch_clamp (torch_log (fp_add (fp_of_int64 (torch_abs64 w)) (Num 1.0))) 0.0 5.5)"

definition seqsep_value :: "int \<Rightarrow> real" where
  "seqsep_value d = real_of_int (sgn d) * min (max (ln (real_of_int \<bar>d\<bar> + 1)) 0) 5.5"

text \<open>
  The graph object of the graph library (\<open>Data(x=..., edge_index=..., edge_attr=...)\<close>),
  with the library's node count \<open>x.size(0)\<close> and the edges as pairs
  \<open>(edge_index[0, e], edge_index[1, e])\<close>.
\<close>

record graph =
  x :: "fp tensor"
  edge_index :: "int tensor"
  edge_attr :: "fp tensor"

definition num_nodes :: "graph \<Rightarrow> nat" where
  "num_nodes G = hd (shape (x G))"

definition num_edges :: "graph \<Rightarrow> nat" where
  "num_edges G = shape (edge_index G) ! 1"

definition edges :: "graph \<Rightarrow> (int \<times> int) list" where
  "edges G = map (\<lambda>e. (tget (edge_index G) [0, e], tget (edge_index G) [1, e]))
               [0..<num_edges G]"

text \<open>
  \<open>make_graph(node, idx, emb)\<close>. \<open>B\<close> and \<open>L\<close> are read from \<open>emb.shape[:2]\<close>; unpacking
  raises ValueError when \<open>emb\<close> has fewer than two dimensions, and so does unpacking
  the result of \<open>torch.where\<close> into \<open>b, i, j\<close> when it has not three components.
\<close>

definition make_graph :: "fp tensor \<Rightarrow> int64 tensor \<Rightarrow> fp tensor \<Rightarrow> py_error + graph" where
  "make_graph node idx emb =
     bind_result (fallback_to_cpu_if_mps (device emb)) (\<lambda>fallback.
     case take 2 (shape emb) of
       [B, L] \<Rightarrow>
         bind_result (index_none 2 1 idx) (\<lambda>idx_row.
         bind_result (index_none 2 2 idx) (\<lambda>idx_col.
         bind_result (broadcast2 (-) idx_row idx_col) (\<lambda>sep.
           let sep = tmap torch_abs64 sep
           in case map (to_device fallback) (torch_where (tmap (\<lambda>v. 0 < sint v) sep)) of
                [b, i, j] \<Rightarrow>
                  bind_result (broadcast2 (+) (tmap (\<lambda>v. v * int L) b) i) (\<lambda>src.
                  bind_result (broadcast2 (+) (tmap (\<lambda>v. v * int L) b) j) (\<lambda>tgt.
                  bind_result (reshape_infer (B * L) node) (\<lambda>x.
                    let x = to_device fallback x
                    in bind_result (torch_stack2 src tgt) (\<lambda>edge_index.
                       bind_result (index3 emb b i j) (\<lambda>edge_attr.
                         Inr \<lparr>x = x, edge_index = edge_index,
                              edge_attr = to_device fallback edge_attr\<rparr>)))))
              | _ \<Rightarrow> Inl ValueError)))
     | _ \<Rightarrow> Inl ValueError)"

subsection \<open>The network\<close>

text \<open>
  Further library operations of the forward pass: \<open>t.reshape(s)\<close> with an explicit
  shape, \<open>t.permute(perm)\<close>, \<open>t.sum(dim=1)\<close> and \<open>torch.cat((a, b), dim=-1)\<close>, which
  passes over a one-dimensional empty operand.
\<close>

definition reshape :: "nat list \<Rightarrow> 'a tensor \<Rightarrow> py_error + 'a tensor" where
  "reshape s t =
     (if numel s = numel (shape t) then Inr (t\<lparr>shape := s\<rparr>) else Inl RuntimeError)"

definition position :: "nat list \<Rightarrow> nat \<Rightarrow> nat" where
  "position perm k = length (takeWhile (\<lambda>p. p \<noteq> k) perm)"

definition permute :: "nat list \<Rightarrow> 'a tensor \<Rightarrow> py_error + 'a tensor" where
  "permute perm t =
     (if length perm = length (shape t) \<and> distinct perm \<and> list_all (\<lambda>p. p < length perm) perm
      then Inr (tgen (device t) (map (\<lambda>p. shape t ! p) perm)
              (\<lambda>ix. tget t (map (\<lambda>k. ix ! position perm k) [0..<length perm])))
      else Inl RuntimeError)"

definition sum_dim1 :: "fp tensor \<Rightarrow> py_error + fp tensor" where
  "sum_dim1 t =
     (case shape t of
        d0 # d1 # rest \<Rightarrow>
          Inr (tgen (device t) (d0 # rest)
                (\<lambda>ix. foldl fp_add (Num 0) (map (\<lambda>n. tget t (hd ix # n # tl ix)) [0..<d1])))
      | _ \<Rightarrow> Inl IndexError)"

definition cat_last :: "'a tensor \<Rightarrow> 'a tensor \<Rightarrow> py_error + 'a tensor" where
  "cat_last a b =
     (if shape a = [0] then Inr b
      else if shape b = [0] then Inr a
      else if shape a \<noteq> [] \<and> length (shape a) = length (shape b)
              \<and> butlast (shape a) = butlast (shape b) \<and> device a = device b
      then Inr (tgen (device a) (butlast (shape a) @ [last (shape a) + last (shape b)])
              (\<lambda>ix. if last ix < last (shape a) then tget a ix
                    else tget b (butlast ix @ [last ix - last (shape a)])))
      else Inl RuntimeError)"

text \<open>
  The module \<open>InitStr_Network\<close>. Its layers are built by the constructor from classes
  of the tensor libraries and of \<open>Transformer.py\<close>; here they are parameters: functions
  from tensors to results, the graph transformer also taking the device its parameters
  are on. The state of the module that the forward pass reads or writes is the device
  of its first parameter (\<open>next(self.parameters()).device\<close>) and the device of the
  transformer's parameters, which \<open>self.transformer.to(fallback)\<close> sets. The other
  attributes of the object are kept as \<open>graph_attributes\<close>, the graphs that an attribute
  of the module refers to, by the name of the attribute.
\<close>

type_synonym layer = "fp tensor \<Rightarrow> py_error + fp tensor"

record module =
  norm_node :: layer
  norm_edge :: layer
  encoder_seq :: layer
  embed_x :: layer
  embed_e :: layer
  transformer :: "device \<Rightarrow> graph \<Rightarrow> py_error + graph"
  get_xyz :: layer
  parameters_device :: device
  transformer_device :: device
  graph_attributes :: "string \<rightharpoonup> graph"

definition forward ::
  "module \<Rightarrow> fp tensor \<Rightarrow> int64 tensor \<Rightarrow> fp tensor \<Rightarrow> fp tensor
     \<Rightarrow> py_error + (fp tensor \<times> module)" where
  "forward self seq1hot idx msa pair =
     (let dev = parameters_device self in
      bind_result (fallback_to_cpu_if_mps dev) (\<lambda>fallback.
      case take 3 (shape msa) of
        [B, N, L] \<Rightarrow>
          bind_result (norm_node self msa) (\<lambda>msa.
          bind_result (norm_edge self pair) (\<lambda>pair.
          bind_result (encoder_seq self msa) (\<lambda>w.
          bind_result (reshape [B, L, 1, N] w) (\<lambda>w.
          bind_result (permute [0, 3, 1, 2] w) (\<lambda>w_seq.
          bind_result (broadcast2 fp_mul w_seq msa) (\<lambda>msa.
          bind_result (sum_dim1 msa) (\<lambda>msa.
          bind_result (cat_last msa seq1hot) (\<lambda>node.
          bind_result (embed_x self node) (\<lambda>node.
          bind_result (get_seqsep idx) (\<lambda>seqsep.
          bind_result (cat_last pair seqsep) (\<lambda>pair.
          bind_result (embed_e self pair) (\<lambda>pair.
          bind_result (make_graph node idx pair) (\<lambda>G.
          let self = self\<lparr>transformer_device := fallback\<rparr>
          in bind_result (transformer self fallback G) (\<lambda>Gout.
             bind_result (get_xyz self (to_device dev (x Gout))) (\<lambda>xyz.
             bind_result (reshape [B, L, 3, 3] xyz) (\<lambda>xyz.
               Inr (xyz, self)))))))))))))))))
      | _ \<Rightarrow> Inl ValueError))"

text \<open>
  What the constructor's layers do to shapes and devices, for a module whose
  parameters are on \<open>dv\<close> and whose transformer runs on \<open>fb\<close>: a layer acting on the last
  dimension maps \<open>din\<close> features to \<open>dout\<close>; the sequence weights of an alignment of
  \<open>N \<ge> 1\<close> sequences hold one weight for each sequence and residue; the transformer
  keeps the shape of the node features.
\<close>

definition layer_maps :: "device \<Rightarrow> nat \<Rightarrow> nat \<Rightarrow> layer \<Rightarrow> bool" where
  "layer_maps dv din dout f =
     (\<forall>t. device t = dv \<and> shape t \<noteq> [] \<and> last (shape t) = din \<longrightarrow>
        (\<exists>t'. f t = Inr t' \<and> device t' = dv \<and> shape t' = butlast (shape t) @ [dout]))"

definition weights_sequences :: "device \<Rightarrow> nat \<Rightarrow> layer \<Rightarrow> bool" where
  "weights_sequences dv din f =
     (\<forall>t B N L. device t = dv \<and> shape t = [B, N, L, din] \<and> 0 < N \<longrightarrow>
        (\<exists>w. f t = Inr w \<and> device w = dv \<and> numel (shape w) = B * L * N))"

definition keeps_nodes :: "device \<Rightarrow> nat \<Rightarrow> nat \<Rightarrow> (graph \<Rightarrow> py_error + graph) \<Rightarrow> bool" where
  "keeps_nodes fb dh eh f =
     (\<forall>G n E. device (x G) = fb \<and> device (edge_index G) = fb \<and> device (edge_attr G) = fb \<and>
         shape (x G) = [n, dh] \<and> 0 < n \<and>
         shape (edge_index G) = [2, E] \<and> shape (edge_attr G) = [E, eh] \<longrightarrow>
        (\<exists>G'. f G = Inr G' \<and> device (x G') = fb \<and> shape (x G') = [n, dh]))"

definition built ::
  "module \<Rightarrow> device \<Rightarrow> nat \<Rightarrow> nat \<Rightarrow> nat \<Rightarrow> nat \<Rightarrow> bool" where
  "built self fb node_dim_in node_dim_hidden edge_dim_in edge_dim_hidden =
     (layer_maps (parameters_device self) node_dim_in node_dim_in (norm_node self) \<and>
      layer_maps (parameters_device self) edge_dim_in edge_dim_in (norm_edge self) \<and>
      weights_sequences (parameters_device self) node_dim_in (encoder_seq self) \<and>
      layer_maps (parameters_device self) (node_dim_in + 21) node_dim_hidden (embed_x self) \<and>
      layer_maps (parameters_device self) (edge_dim_in + 1) edge_dim_hidden (embed_e self) \<and>
      keeps_nodes fb node_dim_hidden edge_dim_hidden (transformer self fb) \<and>
      layer_maps (parameters_device self) node_dim_hidden 9 (get_xyz self))"

text \<open>
  A module of stand-in layers that meet these descriptions, for concrete runs: each
  layer checks the last dimension and the device of its input and returns zeros of the
  shape described.
\<close>

definition zeros_layer :: "device \<Rightarrow> nat \<Rightarrow> nat \<Rightarrow> layer" where
  "zeros_layer dv din dout t =
     (if device t = dv \<and> shape t \<noteq> [] \<and> last (shape t) = din
      then Inr (tgen dv (butlast (shape t) @ [dout]) (\<lambda>ix. Num 0))
      else Inl RuntimeError)"

definition ones_weights :: "device \<Rightarrow> nat \<Rightarrow> layer" where
  "ones_weights dv din t =
     (case shape t of
        [B, N, L, D] \<Rightarrow>
          if device t = dv \<and> D = din \<and> 0 < N
          then Inr (tgen dv [B, L, 1, 1, N] (\<lambda>ix. Num 1))
          else Inl RuntimeError
      | _ \<Rightarrow> Inl RuntimeError)"

definition stand_in :: "device \<Rightarrow> nat \<Rightarrow> nat \<Rightarrow> nat \<Rightarrow> nat \<Rightarrow> module" where
  "stand_in dv node_dim_in node_dim_hidden edge_dim_in edge_dim_hidden =
     \<lparr>norm_node = zeros_layer dv node_dim_in node_dim_in,
      norm_edge = zeros_layer dv edge_dim_in edge_dim_in,
      encoder_seq = ones_weights dv node_dim_in,
      embed_x = zeros_layer dv (node_dim_in + 21) node_dim_hidden,
      embed_e = zeros_layer dv (edge_dim_in + 1) edge_dim_hidden,
      transformer = (\<lambda>fb G. if device (x G) = fb then Inr G else Inl RuntimeError),
      get_xyz = zeros_layer dv node_dim_hidden 9,
      parameters_device = dv,
      transformer_device = dv,
      graph_attributes = Map.empty\<rparr>"

text \<open>Inputs for concrete runs: a tensor of zeros, and the residue indices of one sequence.\<close>

definition zeros :: "device \<Rightarrow> nat list \<Rightarrow> fp tensor" where
  "zeros dv s = tgen dv s (\<lambda>ix. Num 0)"

definition residues :: "device \<Rightarrow> int64 list \<Rightarrow> int64 tensor" where
  "residues dv vs = \<lparr>device = dv, shape = [1, length vs], elems = vs\<rparr>"

section \<open>The build descriptor: \<open>lie_learn/setup.py\<close>\<close>

subsection \<open>Paths\<close>

text \<open>
  The functions of \<open>os.path\<close> that the script calls, for POSIX paths, with paths as
  strings.
\<close>

text \<open>
  \<open>str.split\<close> on a separator, \<open>str.join\<close> and \<open>str.startswith\<close>.
\<close>

fun split_on :: "char \<Rightarrow> string \<Rightarrow> string list" where
  "split_on c [] = [[]]"
| "split_on c (a # as) =
     (if a = c then [] # split_on c as
      else (case split_on c as of w # ws \<Rightarrow> (a # w) # ws | [] \<Rightarrow> [[a]]))"

definition join_with :: "string \<Rightarrow> string list \<Rightarrow> string" where
  "join_with s ws = (case ws of [] \<Rightarrow> [] | w # rest \<Rightarrow> w @ concat (map (\<lambda>v. s @ v) rest))"

definition startswith :: "string \<Rightarrow> string \<Rightarrow> bool" where
  "startswith s p = (take (length p) s = p)"

text \<open>
  \<open>os.path.normpath\<close>: the body of its loop over the components, then the function.
\<close>

definition norm_step :: "bool \<Rightarrow> string list \<Rightarrow> string \<Rightarrow> string list" where
  "norm_step initial_slashes new_comps part =
     (if part = [] \<or> part = ''.'' then new_comps
      else if part \<noteq> ''..'' \<or> (\<not> initial_slashes \<and> new_comps = [])
                \<or> (new_comps \<noteq> [] \<and> last new_comps = ''..'')
      then new_comps @ [part]
      else if new_comps \<noteq> [] then butlast new_comps
      else new_comps)"

definition normpath :: "string \<Rightarrow> string" where
  "normpath path =
     (if path = [] then ''.''
      else
        let initial_slashes =
              (if startswith path ''/''
               then (if startswith path ''//'' \<and> \<not> startswith path ''///'' then 2 else 1)
               else (0 :: nat));
            comps = foldl (norm_step (0 < initial_slashes)) [] (split_on CHR ''/'' path);
            p = replicate initial_slashes CHR ''/'' @ join_with ''/'' comps
        in if p = [] then ''.'' else p)"

text \<open>
  \<open>os.path.join\<close> of two paths, and \<open>os.path.abspath\<close>, which reads the current working
  directory of the process: here the parameter \<open>cwd\<close>.
\<close>

definition join2 :: "string \<Rightarrow> string \<Rightarrow> string" where
  "join2 a b =
     (if startswith b ''/'' then b
      else if a = [] \<or> last a = CHR ''/'' then a @ b
      else a @ ''/'' @ b)"

definition abspath :: "string \<Rightarrow> string \<Rightarrow> string" where
  "abspath cwd path = normpath (if startswith path ''/'' then path else join2 cwd path)"

text \<open>
  \<open>os.path.relpath\<close> compares the components of the two absolute paths; an empty path
  is refused with \<open>ValueError\<close>.
\<close>

fun commonprefix :: "'a list \<Rightarrow> 'a list \<Rightarrow> 'a list" where
  "commonprefix (a # as) (b # bs) = (if a = b then a # commonprefix as bs else [])"
| "commonprefix _ _ = []"

definition relpath :: "string \<Rightarrow> string \<Rightarrow> string \<Rightarrow> py_error + string" where
  "relpath cwd path start =
     (if path = [] then Inl ValueError
      else
        let start_list = filter (\<lambda>c. c \<noteq> []) (split_on CHR ''/'' (abspath cwd start));
            path_list = filter (\<lambda>c. c \<noteq> []) (split_on CHR ''/'' (abspath cwd path));
            i = length (commonprefix start_list path_list);
            rel_list = replicate (length start_list - i) ''..'' @ drop i path_list
        in Inr (if rel_list = [] then ''.'' else join_with ''/'' rel_list))"

text \<open>
  \<open>os.path.splitext\<close> splits at the last dot of the last component, unless only dots
  precede it there; \<open>str.replace\<close> is needed for single characters only.
\<close>

definition splitext :: "string \<Rightarrow> string \<times> string" where
  "splitext p =
     (let filename = rev (takeWhile (\<lambda>c. c \<noteq> CHR ''/'') (rev p));
          dirpart = rev (dropWhile (\<lambda>c. c \<noteq> CHR ''/'') (rev p));
          ext = rev (takeWhile (\<lambda>c. c \<noteq> CHR ''.'') (rev filename));
          stem = rev (tl (dropWhile (\<lambda>c. c \<noteq> CHR ''.'') (rev filename)))
      in if CHR ''.'' \<in> set filename \<and> list_ex (\<lambda>c. c \<noteq> CHR ''.'') stem
         then (dirpart @ stem, CHR ''.'' # ext)
         else (p, []))"

definition replace :: "char \<Rightarrow> char \<Rightarrow> string \<Rightarrow> string" where
  "replace old new s = map (\<lambda>c. if c = old then new else c) s"

text \<open>
  Names of directories and files: \<open>plain\<close> ones are the components of a normalised
  path, \<open>visible\<close> ones those that a search pattern without a leading dot matches.
\<close>

definition plain :: "string \<Rightarrow> bool" where
  "plain c = (c \<noteq> [] \<and> CHR ''/'' \<notin> set c \<and> c \<noteq> ''.'' \<and> c \<noteq> ''..'')"

definition visible :: "string \<Rightarrow> bool" where
  "visible c = (c \<noteq> [] \<and> CHR ''/'' \<notin> set c \<and> hd c \<noteq> CHR ''.'')"

subsection \<open>The extensions\<close>

text \<open>
  An \<open>Extension\<close> object with the keyword arguments the script passes.  The script
  builds one for each element of \<open>pyx_files\<close>, the result of the recursive search
  \<open>glob.glob("lie_learn/**/*.pyx", recursive=True)\<close> in the file system, here a parameter
  like the include directory of NumPy and the working directory.
\<close>

record extension =
  name :: string
  sources :: "string list"
  include_dirs :: "string list"
  libraries :: "string list"
  extra_compile_args :: "string list"
  extra_link_args :: "string list"

definition extension_for :: "string \<Rightarrow> string \<Rightarrow> string \<Rightarrow> py_error + extension" where
  "extension_for cwd np_include pyx_file =
     bind_result (relpath cwd pyx_file ''lie_learn'') (\<lambda>rel.
       Inr \<lparr>name = ''lie_learn.'' @ replace CHR ''/'' CHR ''.'' (fst (splitext rel)),
            sources = [pyx_file],
            include_dirs = [np_include],
            libraries = [''lapack'', ''blas''],
            extra_compile_args =
              [''-O3'', ''-DACCELERATE_NEW_LAPACK'', ''-mmacosx-version-min=13.3'',
               ''-DNPY_NO_DEPRECATED_API=NPY_1_7_API_VERSION''],
            extra_link_args =
              [''-framework'', ''Accelerate'', ''-mmacosx-version-min=13.3'',
               ''-Wl,-rpath,/opt/miniconda3/envs/RoseTTAFold-OSX-ARM64/lib'']\<rparr>)"

text \<open>The list comprehension stops at the first element that raises.\<close>

fun map_result :: "('a \<Rightarrow> py_error + 'b) \<Rightarrow> 'a list \<Rightarrow> py_error + 'b list" where
  "map_result f [] = Inr []"
| "map_result f (a # as) =
     bind_result (f a) (\<lambda>b. bind_result (map_result f as) (\<lambda>bs. Inr (b # bs)))"

definition extensions :: "string \<Rightarrow> string \<Rightarrow> string list \<Rightarrow> py_error + extension list" where
  "extensions cwd np_include pyx_files = map_result (extension_for cwd np_include) pyx_files"

text \<open>
  The paths that the search returns are \<open>lie_learn/d\<^sub>1/.../d\<^sub>k/stem.pyx\<close>, and the dotted
  name of such a file is \<open>lie_learn.d\<^sub>1.....d\<^sub>k.stem\<close>.
\<close>

definition pyx_path :: "string list \<Rightarrow> string \<Rightarrow> string" where
  "pyx_path dirs stem = join_with ''/'' (''lie_learn'' # dirs @ [stem @ ''.pyx''])"

definition dotted_name :: "string list \<Rightarrow> string \<Rightarrow> string" where
  "dotted_name dirs stem = ''lie_learn.'' @ join_with ''.'' (dirs @ [stem])"

section \<open>Properties of the device helpers\<close>

text \<open>
  Claim C2. For every torch device \<open>d\<close>, \<open>fallback_to_cpu_if_mps d\<close> branches on the
  device-type string: it returns the CPU device when the type of \<open>d\<close> is \<open>'mps'\<close>, and
  \<open>d\<close> itself, unchanged, for every other type.
\<close>

theorem fallback_to_cpu_if_mps_branches:
  "(type d = ''mps'' \<longrightarrow> fallback_to_cpu_if_mps d = Inr (torch_device ''cpu'')) \<and>
   (type d \<noteq> ''mps'' \<longrightarrow> fallback_to_cpu_if_mps d = Inr d)"
  by (simp add: fallback_to_cpu_if_mps_def)

theorem fallback_to_cpu_if_mps_branches_witness:
  "fallback_to_cpu_if_mps \<lparr>type = ''mps'', index = Some 0\<rparr> = Inr \<lparr>type = ''cpu'', index = None\<rparr> \<and>
   fallback_to_cpu_if_mps \<lparr>type = ''cuda'', index = Some 1\<rparr> = Inr \<lparr>type = ''cuda'', index = Some 1\<rparr>"
  using fallback_to_cpu_if_mps_branches [of "\<lparr>type = ''mps'', index = Some 0\<rparr>"]
    fallback_to_cpu_if_mps_branches [of "\<lparr>type = ''cuda'', index = Some 1\<rparr>"]
  by (simp add: torch_device_def)

text \<open>
  Claim C10. \<open>fallback_to_cpu_if_mps\<close> is idempotent: applying it to its own result
  gives that result again; and the device it returns never has type \<open>'mps'\<close>.
\<close>

theorem fallback_to_cpu_if_mps_idempotent:
  "bind_result (fallback_to_cpu_if_mps d) fallback_to_cpu_if_mps = fallback_to_cpu_if_mps d \<and>
   (\<exists>d'. fallback_to_cpu_if_mps d = Inr d' \<and> type d' \<noteq> ''mps'')"
  by (simp add: fallback_to_cpu_if_mps_def bind_result_def torch_device_def)

text \<open>
  Claim C3, as the code has it. For every flag and every function \<open>f\<close>,
  \<open>cuda_amp_autocast\<close> branches on the availability of CUDA: it returns \<open>f\<close> wrapped by
  the library decorator with that flag when CUDA is available, and \<open>f\<close> unchanged
  otherwise. No device-type string takes part.
\<close>

theorem cuda_amp_autocast_branches:
  "(cuda_is_available \<longrightarrow>
      cuda_amp_autocast cuda_is_available autocast enabled f = Inr (autocast enabled f)) \<and>
   (\<not> cuda_is_available \<longrightarrow>
      cuda_amp_autocast cuda_is_available autocast enabled f = Inr f)"
  by (simp add: cuda_amp_autocast_def)

theorem cuda_amp_autocast_branches_witness:
  "cuda_amp_autocast True Autocast True (Func ''forward'') = Inr (Autocast True (Func ''forward'')) \<and>
   cuda_amp_autocast False Autocast True (Func ''forward'') = Inr (Func ''forward'')"
  using cuda_amp_autocast_branches [of True Autocast True "Func ''forward''"]
    cuda_amp_autocast_branches [of False Autocast True "Func ''forward''"]
  by simp

text \<open>
  Claim C3, as the specification words it, fails: on a machine where CUDA is available
  and the tensors are on a device of type \<open>'cpu'\<close>, a branch on the device-type string
  would leave the function unchanged, and the code wraps it.
\<close>

theorem cuda_amp_autocast_not_by_device_type:
  "cuda_amp_autocast True Autocast True (Func ''forward'') = Inr (Autocast True (Func ''forward'')) \<and>
   cuda_amp_autocast_by_device_type ''cpu'' Autocast True (Func ''forward'') = Inr (Func ''forward'') \<and>
   cuda_amp_autocast True Autocast True (Func ''forward'')
     \<noteq> cuda_amp_autocast_by_device_type ''cpu'' Autocast True (Func ''forward'')"
  by (simp add: cuda_amp_autocast_def cuda_amp_autocast_by_device_type_def)

section \<open>Row-major indexing\<close>

lemma ravel_rev_bound:
  "list_all2 (<) ks ds \<Longrightarrow> ravel_rev ds ks < prod_list ds"
proof (induction ks ds rule: list_all2_induct)
  case Nil
  then show ?case by simp
next
  case (Cons k ks d ds)
  have "k + d * ravel_rev ds ks < d + d * ravel_rev ds ks" using Cons by simp
  also have "\<dots> = d * Suc (ravel_rev ds ks)" by simp
  also have "\<dots> \<le> d * prod_list ds" using Cons by (intro mult_le_mono2) simp
  finally show ?case by simp
qed

lemma unravel_ravel_rev:
  "list_all2 (<) ks ds \<Longrightarrow> unravel_rev ds (ravel_rev ds ks) = ks"
  by (induction ks ds rule: list_all2_induct) auto

lemma unravel_rev_valid:
  "n < prod_list ds \<Longrightarrow> list_all2 (<) (unravel_rev ds n) ds"
proof (induction ds arbitrary: n)
  case Nil
  then show ?case by simp
next
  case (Cons d ds)
  have d: "0 < d" using Cons.prems by (cases d) auto
  have "n div d < prod_list ds"
    using Cons.prems d by (simp add: less_mult_imp_div_less mult.commute)
  with Cons.IH d show ?case by simp
qed

lemma ravel_unravel_rev:
  "n < prod_list ds \<Longrightarrow> ravel_rev ds (unravel_rev ds n) = n"
proof (induction ds arbitrary: n)
  case Nil
  then show ?case by simp
next
  case (Cons d ds)
  have d: "0 < d" using Cons.prems by (cases d) auto
  have "n div d < prod_list ds"
    using Cons.prems d by (simp add: less_mult_imp_div_less mult.commute)
  with Cons.IH show ?case by simp
qed

lemma length_unravel_rev [simp]: "length (unravel_rev ds n) = length ds"
  by (induction ds arbitrary: n) auto

lemma ravel_bound: "valid_index s ix \<Longrightarrow> ravel s ix < numel s"
  using ravel_rev_bound [of "rev ix" "rev s"]
  by (simp add: valid_index_def ravel_def numel_def)

lemma unravel_ravel: "valid_index s ix \<Longrightarrow> unravel s (ravel s ix) = ix"
  using unravel_ravel_rev [of "rev ix" "rev s"]
  by (simp add: valid_index_def ravel_def unravel_def)

lemma valid_unravel: "n < numel s \<Longrightarrow> valid_index s (unravel s n)"
  using unravel_rev_valid [of n "rev s"]
  by (simp add: valid_index_def unravel_def numel_def list_all2_rev1)

lemma ravel_unravel: "n < numel s \<Longrightarrow> ravel s (unravel s n) = n"
  using ravel_unravel_rev [of n "rev s"]
  by (simp add: ravel_def unravel_def numel_def)

lemma valid_index_Cons [simp]:
  "valid_index (d # ds) (k # ks) = (k < d \<and> valid_index ds ks)"
  by (auto simp: valid_index_def)

lemma valid_index_Nil [simp]: "valid_index [] [] = True"
  by (simp add: valid_index_def)

lemma valid_index3:
  "valid_index [B, L, M] ix = (\<exists>b i j. ix = [b, i, j] \<and> b < B \<and> i < L \<and> j < M)"
proof
  assume v: "valid_index [B, L, M] ix"
  then have "length ix = 3" by (simp add: valid_index_def)
  then obtain b i j where "ix = [b, i, j]"
    by (metis (no_types, opaque_lifting) length_0_conv length_Suc_conv numeral_3_eq_3)
  with v show "\<exists>b i j. ix = [b, i, j] \<and> b < B \<and> i < L \<and> j < M" by simp
next
  assume "\<exists>b i j. ix = [b, i, j] \<and> b < B \<and> i < L \<and> j < M"
  then show "valid_index [B, L, M] ix" by auto
qed

lemma tget_tgen: "valid_index s ix \<Longrightarrow> tget (tgen d s f) ix = f ix"
  by (simp add: tget_def tgen_def ravel_bound unravel_ravel)

lemma wf_tgen: "wf_tensor (tgen d s f)"
  by (simp add: wf_tensor_def tgen_def)

lemma shape_tgen: "shape (tgen d s f) = s"
  by (simp add: tgen_def)

lemma device_tgen: "device (tgen d s f) = d"
  by (simp add: tgen_def)

lemma tget_tmap:
  "ravel (shape t) ix < length (elems t) \<Longrightarrow> tget (tmap f t) ix = f (tget t ix)"
  by (simp add: tget_def tmap_def)

lemma shape_tmap [simp]: "shape (tmap f t) = shape t"
  by (simp add: tmap_def)

lemma device_tmap [simp]: "device (tmap f t) = device t"
  by (simp add: tmap_def)

lemma length_elems_tmap [simp]: "length (elems (tmap f t)) = length (elems t)"
  by (simp add: tmap_def)

lemma unravel_1d: "e < n \<Longrightarrow> unravel [n] e = [e]"
  by (simp add: unravel_def)

lemma elems_tgen_1d: "elems (tgen d [n] f) = map (\<lambda>e. f [e]) [0..<n]"
proof -
  have "map (\<lambda>e. f (unravel [n] e)) [0..<n] = map (\<lambda>e. f [e]) [0..<n]"
    by (rule map_cong) (simp_all add: unravel_1d)
  then show ?thesis by (simp add: tgen_def numel_def)
qed

lemma map_upt_nth: "map (\<lambda>e. g (xs ! e)) [0..<length xs] = map g xs"
proof -
  have "map (\<lambda>e. g (xs ! e)) [0..<length xs] = map g (map ((!) xs) [0..<length xs])"
    by (simp only: map_map comp_def)
  then show ?thesis by (simp only: map_nth)
qed

lemma set_unravel_upt:
  "set (map (unravel s) (filter P [0..<numel s])) =
     {ix. valid_index s ix \<and> P (ravel s ix)}"
proof (intro set_eqI iffI)
  fix ix assume "ix \<in> set (map (unravel s) (filter P [0..<numel s]))"
  then obtain n where "n < numel s" "P n" "ix = unravel s n" by auto
  then show "ix \<in> {ix. valid_index s ix \<and> P (ravel s ix)}"
    by (simp add: valid_unravel ravel_unravel)
next
  fix ix assume "ix \<in> {ix. valid_index s ix \<and> P (ravel s ix)}"
  then have v: "valid_index s ix" and p: "P (ravel s ix)" by simp_all
  have "ravel s ix \<in> set (filter P [0..<numel s])"
    using ravel_bound [OF v] p by simp
  then have "unravel s (ravel s ix) \<in> set (map (unravel s) (filter P [0..<numel s]))"
    by (simp only: set_map) (rule imageI)
  then show "ix \<in> set (map (unravel s) (filter P [0..<numel s]))"
    by (simp add: unravel_ravel [OF v])
qed

lemma bind_result_Inr:
  "bind_result r f = Inr y \<Longrightarrow> \<exists>v. r = Inr v \<and> f v = Inr y"
  by (cases r) (simp_all add: bind_result_def)

section \<open>64-bit integers\<close>

lemma sint_int64_min: "sint int64_min = - (2 ^ 63)"
  by (simp add: int64_min_def)

lemma neg_int64_min: "- int64_min = int64_min"
  by (simp add: int64_min_def)

lemma sint_ne_min: "(w :: int64) \<noteq> int64_min \<Longrightarrow> - (2 ^ 63) < sint w"
proof -
  assume ne: "w \<noteq> int64_min"
  have "sint w \<noteq> sint int64_min"
    using ne signed_word_eqI [of w int64_min] by blast
  moreover have "- (2 ^ 63) \<le> sint w"
    using sint_ge [of w] by simp
  ultimately show ?thesis by (simp add: sint_int64_min)
qed

lemma sint_neg64: "(w :: int64) \<noteq> int64_min \<Longrightarrow> sint (- w) = - sint w"
proof -
  assume ne: "w \<noteq> int64_min"
  have lo: "- (2 ^ 63) < sint w" by (rule sint_ne_min [OF ne])
  have hi: "sint w < 2 ^ 63" using sint_lt [of w] by simp
  have "sint (- w) = signed_take_bit 63 (- sint w)"
    by (simp add: sint_word_minus)
  also have "\<dots> = - sint w"
    using lo hi by (intro signed_take_bit_int_eq_self) simp_all
  finally show ?thesis .
qed

lemma abs64_neg: "torch_abs64 (- w) = torch_abs64 w"
proof (cases "w = int64_min")
  case True
  then show ?thesis by (simp add: neg_int64_min)
next
  case False
  then have "sint (- w) = - sint w" by (rule sint_neg64)
  moreover have "sint w = 0 \<Longrightarrow> w = 0"
    by (metis sint_0 signed_word_eqI)
  ultimately show ?thesis
    by (auto simp: torch_abs64_def)
qed

lemma sint_abs64: "(w :: int64) \<noteq> int64_min \<Longrightarrow> sint (torch_abs64 w) = \<bar>sint w\<bar>"
  by (simp add: torch_abs64_def sint_neg64)

lemma sint_sign64: "sint (torch_sign64 w) = sgn (sint w)"
  by (simp add: torch_sign64_def sgn_if)

lemma abs64_pos_distinct: "0 < sint (torch_abs64 (a - b)) \<Longrightarrow> a \<noteq> b"
  by (auto simp: torch_abs64_def)

lemma abs64_pos_sym: "0 < sint (torch_abs64 (a - b)) \<Longrightarrow> 0 < sint (torch_abs64 (b - a))"
  using abs64_neg [of "a - b"] by simp

section \<open>Entries of the sequence separation\<close>

lemma seqsep_entry_value:
  assumes "w \<noteq> int64_min"
  shows "seqsep_entry w = Num (seqsep_value (sint w))"
proof -
  have "0 < real_of_int \<bar>sint w\<bar> + 1" by simp
  then show ?thesis
    by (simp add: seqsep_entry_def seqsep_value_def fp_of_int64_def sint_abs64 [OF assms]
        sint_sign64)
qed

lemma seqsep_entry_min: "seqsep_entry int64_min = NaN"
  by (simp add: seqsep_entry_def fp_of_int64_def torch_abs64_def torch_sign64_def
      sint_int64_min neg_int64_min)

lemma seqsep_value_neg: "seqsep_value (- d) = - seqsep_value d"
  by (simp add: seqsep_value_def sgn_minus)

lemma seqsep_value_zero: "seqsep_value 0 = 0"
  by (simp add: seqsep_value_def)

lemma seqsep_value_bound: "\<bar>seqsep_value d\<bar> \<le> 5.5"
proof -
  define c where "c = min (max (ln (real_of_int \<bar>d\<bar> + 1)) 0) 5.5"
  have c: "0 \<le> c \<and> c \<le> 5.5"
    by (simp add: c_def)
  have s: "\<bar>real_of_int (sgn d)\<bar> \<le> 1"
    by (simp add: sgn_if)
  have "\<bar>seqsep_value d\<bar> = \<bar>real_of_int (sgn d)\<bar> * c"
    using c by (simp add: seqsep_value_def abs_mult c_def)
  also have "\<dots> \<le> 1 * 5.5"
    using c s by (intro mult_mono) auto
  finally show ?thesis by simp
qed

lemma bdim [simp]: "(if a = (1::nat) then 1 else a) = a"
  by simp

lemma pairwise_shape:
  fixes idx :: "int64 tensor"
  assumes "shape idx = [B, L]"
  shows "index_none 2 1 idx = Inr (idx\<lparr>shape := [B, 1, L]\<rparr>)"
    and "index_none 2 2 idx = Inr (idx\<lparr>shape := [B, L, 1]\<rparr>)"
    and "\<exists>d. broadcast2 (-) (idx\<lparr>shape := [B, 1, L]\<rparr>) (idx\<lparr>shape := [B, L, 1]\<rparr>) = Inr d
     \<and> shape d = [B, L, L] \<and> wf_tensor d \<and> device d = device idx \<and>
     (\<forall>b i j. b < B \<and> i < L \<and> j < L \<longrightarrow> tget d [b, i, j] = tget idx [b, j] - tget idx [b, i])"
  using assms
    apply (simp_all add: index_none_def broadcast2_def pad_shape_def
      broadcastable_def broadcast_shape_def Let_def shape_tgen wf_tgen device_tgen)
  apply (simp add: tget_tgen)
  apply (simp add: broadcast_index_def tget_def ravel_def)
  done

lemma get_seqsep_entries:
  assumes "shape idx = [B, L]"
  shows "\<exists>out. get_seqsep idx = Inr out \<and> shape out = [B, L, L, 1] \<and> wf_tensor out \<and>
     device out = device idx \<and>
     (\<forall>b i j. b < B \<and> i < L \<and> j < L \<longrightarrow>
        tget out [b, i, j, 0] = seqsep_entry (tget idx [b, j] - tget idx [b, i]))"
proof -
  note ps = pairwise_shape [OF assms]
  from ps(3) obtain d where
    d: "broadcast2 (-) (idx\<lparr>shape := [B, 1, L]\<rparr>) (idx\<lparr>shape := [B, L, 1]\<rparr>) = Inr d"
    and sh: "shape d = [B, L, L]" and wf: "wf_tensor d" and dev: "device d = device idx"
    and ent: "\<And>b i j. b < B \<Longrightarrow> i < L \<Longrightarrow> j < L \<Longrightarrow>
                tget d [b, i, j] = tget idx [b, j] - tget idx [b, i]"
    by blast
  define sign where "sign = tmap torch_sign64 d"
  define val where
    "val = tmap (\<lambda>v. torch_clamp v 0.0 5.5)
             (tmap torch_log (tmap (\<lambda>a. fp_add (fp_of_int64 a) (Num 1.0)) (tmap torch_abs64 d)))"
  define out where
    "out = unsqueeze_last (tgen (device d) [B, L, L]
       (\<lambda>ix. fp_mul (fp_of_int64 (tget sign (broadcast_index [B, L, L] ix)))
                (tget val (broadcast_index [B, L, L] ix))))"
  have mul: "broadcast2 (\<lambda>s v. fp_mul (fp_of_int64 s) v) sign val =
      Inr (tgen (device d) [B, L, L]
        (\<lambda>ix. fp_mul (fp_of_int64 (tget sign (broadcast_index [B, L, L] ix)))
                 (tget val (broadcast_index [B, L, L] ix))))"
    using sh
    by (simp add: broadcast2_def pad_shape_def Let_def broadcastable_def broadcast_shape_def
        sign_def val_def)
  have run: "get_seqsep idx = Inr out"
    unfolding get_seqsep_def ps(1) ps(2)
    using d mul
    by (simp add: bind_result_def Let_def sign_def val_def out_def)
  have len: "length (elems d) = B * L * L"
    using wf sh by (simp add: wf_tensor_def numel_def)
  have entry: "tget out [b, i, j, 0] = seqsep_entry (tget idx [b, j] - tget idx [b, i])"
    if "b < B" "i < L" "j < L" for b i j
  proof -
    have r: "ravel [B, L, L] [b, i, j] < B * L * L"
      using ravel_bound [of "[B, L, L]" "[b, i, j]"] that by (simp add: numel_def)
    have bi: "broadcast_index [B, L, L] [b, i, j] = [b, i, j]"
      using that by (auto simp: broadcast_index_def)
    have "tget out [b, i, j, 0] =
        tget (tgen (device d) [B, L, L]
          (\<lambda>ix. fp_mul (fp_of_int64 (tget sign (broadcast_index [B, L, L] ix)))
                   (tget val (broadcast_index [B, L, L] ix)))) [b, i, j]"
      by (simp add: out_def unsqueeze_last_def tget_def ravel_def tgen_def)
    also have "\<dots> = fp_mul (fp_of_int64 (tget sign [b, i, j])) (tget val [b, i, j])"
      using that by (simp add: tget_tgen bi)
    also have "tget sign [b, i, j] = torch_sign64 (tget d [b, i, j])"
      unfolding sign_def using r len sh by (simp add: tget_tmap)
    also have "tget val [b, i, j] =
        torch_clamp (torch_log (fp_add (fp_of_int64 (torch_abs64 (tget d [b, i, j]))) (Num 1.0))) 0.0 5.5"
      unfolding val_def using r len sh by (simp add: tget_tmap)
    finally show ?thesis
      using ent [OF that] by (simp add: seqsep_entry_def)
  qed
  have "shape out = [B, L, L, 1]"
    by (simp add: out_def unsqueeze_last_def shape_tgen)
  moreover have "wf_tensor out"
    by (simp add: out_def unsqueeze_last_def wf_tensor_def tgen_def numel_def)
  moreover have "device out = device idx"
    using dev by (simp add: out_def unsqueeze_last_def tgen_def)
  ultimately show ?thesis
    using run entry by blast
qed

text \<open>
  Claim C5, as the code has it. For every residue-index tensor \<open>idx\<close> of shape
  \<open>(B, L)\<close> in which no difference of two indices of one sequence wraps around to the
  least 64-bit integer \<open>-2^63\<close>, the output of \<open>get_seqsep\<close> has shape \<open>(B, L, L, 1)\<close>,
  is antisymmetric in the residue pair, is zero wherever the two indices are equal,
  and has every entry in the closed interval \<open>[-5.5, 5.5]\<close>.
\<close>

theorem get_seqsep_signed_separation:
  assumes "shape idx = [B, L]"
    and "\<forall>b i j. b < B \<and> i < L \<and> j < L \<longrightarrow> tget idx [b, j] - tget idx [b, i] \<noteq> int64_min"
  shows "\<exists>out. get_seqsep idx = Inr out \<and> shape out = [B, L, L, 1] \<and> wf_tensor out \<and>
     (\<forall>b i j. b < B \<and> i < L \<and> j < L \<longrightarrow>
        (\<exists>v. tget out [b, i, j, 0] = Num v \<and> tget out [b, j, i, 0] = Num (- v) \<and>
             (tget idx [b, i] = tget idx [b, j] \<longrightarrow> v = 0) \<and>
             - 5.5 \<le> v \<and> v \<le> 5.5))"
proof -
  from get_seqsep_entries [OF assms(1)] obtain out where
    run: "get_seqsep idx = Inr out" and sh: "shape out = [B, L, L, 1]" and wf: "wf_tensor out"
    and ent: "\<And>b i j. b < B \<Longrightarrow> i < L \<Longrightarrow> j < L \<Longrightarrow>
                tget out [b, i, j, 0] = seqsep_entry (tget idx [b, j] - tget idx [b, i])"
    by blast
  have "\<exists>v. tget out [b, i, j, 0] = Num v \<and> tget out [b, j, i, 0] = Num (- v) \<and>
             (tget idx [b, i] = tget idx [b, j] \<longrightarrow> v = 0) \<and>
             - 5.5 \<le> v \<and> v \<le> 5.5"
    if bij: "b < B" "i < L" "j < L" for b i j
  proof -
    define w where "w = tget idx [b, j] - tget idx [b, i]"
    have w: "w \<noteq> int64_min" and w': "- w \<noteq> int64_min"
      using assms(2) bij by (auto simp: w_def)
    have e1: "tget out [b, i, j, 0] = Num (seqsep_value (sint w))"
      using ent [OF bij] seqsep_entry_value [OF w] by (simp add: w_def)
    have "tget out [b, j, i, 0] = seqsep_entry (- w)"
      using ent [OF bij(1) bij(3) bij(2)] by (simp add: w_def)
    then have e2: "tget out [b, j, i, 0] = Num (- seqsep_value (sint w))"
      using seqsep_entry_value [OF w'] by (simp add: sint_neg64 [OF w] seqsep_value_neg)
    have z: "tget idx [b, i] = tget idx [b, j] \<longrightarrow> seqsep_value (sint w) = 0"
      by (simp add: w_def seqsep_value_zero)
    have "- 5.5 \<le> seqsep_value (sint w) \<and> seqsep_value (sint w) \<le> 5.5"
      using seqsep_value_bound [of "sint w"] by linarith
    with e1 e2 z show ?thesis by blast
  qed
  with run sh wf show ?thesis by blast
qed

theorem get_seqsep_signed_separation_witness:
  "shape \<lparr>device = torch_device ''cpu'', shape = [1, 2], elems = [3, 7 :: int64]\<rparr> = [1, 2] \<and>
   (\<exists>out. get_seqsep \<lparr>device = torch_device ''cpu'', shape = [1, 2], elems = [3, 7]\<rparr> = Inr out \<and>
      shape out = [1, 2, 2, 1] \<and>
      (\<exists>v. tget out [0, 0, 1, 0] = Num v \<and> tget out [0, 1, 0, 0] = Num (- v) \<and>
           - 5.5 \<le> v \<and> v \<le> 5.5))"
proof -
  let ?idx = "\<lparr>device = torch_device ''cpu'', shape = [1, 2], elems = [3, 7 :: int64]\<rparr>"
  have h1: "shape ?idx = [1, 2]" by simp
  have e: "tget ?idx [0, 0] = 3" "tget ?idx [0, 1] = 7"
    by (simp_all add: tget_def ravel_def)
  have h2: "\<forall>b i j. b < 1 \<and> i < 2 \<and> j < 2 \<longrightarrow> tget ?idx [b, j] - tget ?idx [b, i] \<noteq> int64_min"
  proof (intro allI impI)
    fix b i j :: nat
    assume "b < 1 \<and> i < 2 \<and> j < 2"
    then have "b = 0" "i = 0 \<or> i = 1" "j = 0 \<or> j = 1" by auto
    then show "tget ?idx [b, j] - tget ?idx [b, i] \<noteq> int64_min"
      using e by (auto simp: int64_min_def)
  qed
  from get_seqsep_signed_separation [OF h1 h2] obtain out where
    run: "get_seqsep ?idx = Inr out" and sh: "shape out = [1, 2, 2, 1]"
    and ent: "\<forall>b i j. b < 1 \<and> i < 2 \<and> j < 2 \<longrightarrow>
        (\<exists>v. tget out [b, i, j, 0] = Num v \<and> tget out [b, j, i, 0] = Num (- v) \<and>
             (tget ?idx [b, i] = tget ?idx [b, j] \<longrightarrow> v = 0) \<and>
             - 5.5 \<le> v \<and> v \<le> 5.5)"
    by blast
  from ent [rule_format, of 0 0 1] obtain v where
    "tget out [0, 0, 1, 0] = Num v" "tget out [0, 1, 0, 0] = Num (- v)" "- 5.5 \<le> v" "v \<le> 5.5"
    by auto
  with run sh h1 show ?thesis by blast
qed

text \<open>
  Claim C5, as the specification words it, fails: for the indices \<open>-1\<close> and \<open>2^63-1\<close>
  the difference wraps around to \<open>-2^63\<close>, whose absolute value is again negative, and
  the entry is the logarithm of a negative number: not-a-number, outside every
  interval.
\<close>

theorem get_seqsep_nan_on_overflow:
  "map_sum id (\<lambda>out. tget out [0, 0, 1, 0])
     (get_seqsep \<lparr>device = torch_device ''cpu'', shape = [1, 2],
                  elems = [- 1, 9223372036854775807]\<rparr>) = Inr NaN"
proof -
  let ?idx = "\<lparr>device = torch_device ''cpu'', shape = [1, 2],
               elems = [- 1, 9223372036854775807 :: int64]\<rparr>"
  have h1: "shape ?idx = [1, 2]" by simp
  from get_seqsep_entries [OF h1] obtain out where
    run: "get_seqsep ?idx = Inr out"
    and all: "\<forall>b i j. b < 1 \<and> i < 2 \<and> j < 2 \<longrightarrow>
        tget out [b, i, j, 0] = seqsep_entry (tget ?idx [b, j] - tget ?idx [b, i])"
    by blast
  have ent: "tget out [0, 0, 1, 0] = seqsep_entry (tget ?idx [0, 1] - tget ?idx [0, 0])"
    using all [rule_format, of 0 0 1] by simp
  have "tget ?idx [0, 1] - tget ?idx [0, 0] = int64_min"
    by (simp add: tget_def ravel_def int64_min_def)
  with ent have "tget out [0, 0, 1, 0] = NaN"
    by (simp only: seqsep_entry_min)
  with run show ?thesis by simp
qed

lemma torch_where3:
  assumes "shape c = [B, L, M]"
  shows "torch_where c =
    (let hits = map (unravel [B, L, M]) (filter (\<lambda>n. elems c ! n) [0..<B * L * M])
     in [\<lparr>device = device c, shape = [length hits], elems = map (\<lambda>ix. int (ix ! 0)) hits\<rparr>,
         \<lparr>device = device c, shape = [length hits], elems = map (\<lambda>ix. int (ix ! 1)) hits\<rparr>,
         \<lparr>device = device c, shape = [length hits], elems = map (\<lambda>ix. int (ix ! 2)) hits\<rparr>])"
  using assms by (simp add: torch_where_def Let_def numel_def mult.assoc numeral_2_eq_2)

lemma edge_endpoint:
  fixes hits :: "nat list list"
  defines "E \<equiv> length hits"
  assumes "broadcast2 (+)
      (tmap (\<lambda>v. v * int L) (to_device fb \<lparr>device = dc, shape = [E], elems = map (\<lambda>ix. int (ix ! 0)) hits\<rparr>))
      (to_device fb \<lparr>device = dc, shape = [E], elems = map (\<lambda>ix. int (ix ! k)) hits\<rparr>) = Inr src"
  shows "src = \<lparr>device = fb, shape = [E], elems = map (\<lambda>ix. int (ix ! 0) * int L + int (ix ! k)) hits\<rparr>"
proof -
  let ?b = "tmap (\<lambda>v. v * int L) (to_device fb \<lparr>device = dc, shape = [E], elems = map (\<lambda>ix. int (ix ! 0)) hits\<rparr>)"
  let ?i = "to_device fb \<lparr>device = dc, shape = [E], elems = map (\<lambda>ix. int (ix ! k)) hits\<rparr>"
  have src: "src = tgen fb [E] (\<lambda>ix. tget ?b (broadcast_index [E] ix) + tget ?i (broadcast_index [E] ix))"
    using assms(2)
    by (simp add: broadcast2_def pad_shape_def Let_def broadcastable_def broadcast_shape_def
        to_device_def tmap_def split: if_splits)
  have "elems src = map (\<lambda>e. int (hits ! e ! 0) * int L + int (hits ! e ! k)) [0..<E]"
    unfolding src elems_tgen_1d
    by (rule map_cong)
      (auto simp: broadcast_index_def tget_def ravel_def tmap_def to_device_def E_def)
  also have "\<dots> = map (\<lambda>ix. int (ix ! 0) * int L + int (ix ! k)) hits"
    unfolding E_def by (rule map_upt_nth)
  finally have "elems src = map (\<lambda>ix. int (ix ! 0) * int L + int (ix ! k)) hits" .
  moreover have "shape src = [E]" "device src = fb"
    by (simp_all add: src shape_tgen device_tgen)
  ultimately show ?thesis by simp
qed

lemma index3_shape:
  "index3 t b i j = Inr r \<Longrightarrow> shape r = hd (shape b) # drop 3 (shape t) \<and> device r = device t"
  by (auto simp: index3_def Let_def shape_tgen device_tgen split: list.splits if_splits)

lemma make_graph_result:
  assumes sh: "shape idx = [B, L]"
    and emb: "take 2 (shape emb) = [B, L]"
    and run: "make_graph node idx emb = Inr G"
  shows "\<exists>hits fb. fallback_to_cpu_if_mps (device emb) = Inr fb \<and>
     set hits = {ix. \<exists>b i j. ix = [b, i, j] \<and> b < B \<and> i < L \<and> j < L \<and>
                     0 < sint (torch_abs64 (tget idx [b, j] - tget idx [b, i]))} \<and>
     x G = to_device fb (node\<lparr>shape := [B * L, numel (shape node) div (B * L)]\<rparr>) \<and>
     edge_index G = \<lparr>device = fb, shape = [2, length hits],
        elems = map (\<lambda>ix. int (ix ! 0) * int L + int (ix ! 1)) hits @
                map (\<lambda>ix. int (ix ! 0) * int L + int (ix ! 2)) hits\<rparr> \<and>
     device (edge_attr G) = fb \<and>
     shape (edge_attr G) = length hits # drop 3 (shape emb)"
proof -
  note ps = pairwise_shape [OF sh]
  from ps(3) obtain d where
    d: "broadcast2 (-) (idx\<lparr>shape := [B, 1, L]\<rparr>) (idx\<lparr>shape := [B, L, 1]\<rparr>) = Inr d"
    and shd: "shape d = [B, L, L]" and wf: "wf_tensor d"
    and ent: "\<And>b i j. b < B \<Longrightarrow> i < L \<Longrightarrow> j < L \<Longrightarrow>
                tget d [b, i, j] = tget idx [b, j] - tget idx [b, i]"
    by blast
  obtain fb where fb: "fallback_to_cpu_if_mps (device emb) = Inr fb"
    by (cases "type (device emb) = ''mps''") (simp_all add: fallback_to_cpu_if_mps_def)
  define c where "c = tmap (\<lambda>v. 0 < sint v) (tmap torch_abs64 d)"
  define hits where
    "hits = map (unravel [B, L, L]) (filter (\<lambda>n. elems c ! n) [0..<B * L * L])"
  define W where "W k = to_device fb
     \<lparr>device = device c, shape = [length hits], elems = map (\<lambda>ix. int (ix ! k)) hits\<rparr>" for k
  have shc: "shape c = [B, L, L]" by (simp add: c_def shd)
  have w: "map (to_device fb) (torch_where c) = [W 0, W 1, W 2]"
    using torch_where3 [OF shc] by (simp add: Let_def W_def hits_def)
  have len: "length (elems d) = B * L * L"
    using wf shd by (simp add: wf_tensor_def numel_def)
  have hits: "set hits = {ix. \<exists>b i j. ix = [b, i, j] \<and> b < B \<and> i < L \<and> j < L \<and>
                     0 < sint (torch_abs64 (tget idx [b, j] - tget idx [b, i]))}"
  proof -
    have "set hits = {ix. valid_index [B, L, L] ix \<and> elems c ! ravel [B, L, L] ix}"
      using set_unravel_upt [of "[B, L, L]" "\<lambda>n. elems c ! n"]
      by (simp add: hits_def numel_def mult.assoc)
    also have "\<dots> = {ix. \<exists>b i j. ix = [b, i, j] \<and> b < B \<and> i < L \<and> j < L \<and>
                     0 < sint (torch_abs64 (tget idx [b, j] - tget idx [b, i]))}"
    proof (intro Collect_cong)
      fix ix
      show "(valid_index [B, L, L] ix \<and> elems c ! ravel [B, L, L] ix) =
            (\<exists>b i j. ix = [b, i, j] \<and> b < B \<and> i < L \<and> j < L \<and>
                     0 < sint (torch_abs64 (tget idx [b, j] - tget idx [b, i])))"
      proof (cases "valid_index [B, L, L] ix")
        case False
        then show ?thesis by (auto simp: valid_index3)
      next
        case True
        then obtain b i j where ix: "ix = [b, i, j]" and b: "b < B" "i < L" "j < L"
          by (auto simp: valid_index3)
        have r: "ravel [B, L, L] ix < length (elems d)"
          using ravel_bound [OF True] len by (simp add: numel_def)
        have "elems c ! ravel [B, L, L] ix = (0 < sint (torch_abs64 (tget d ix)))"
          using r by (simp add: c_def tmap_def tget_def shd)
        also have "\<dots> = (0 < sint (torch_abs64 (tget idx [b, j] - tget idx [b, i])))"
          using ent [OF b] by (simp add: ix)
        finally show ?thesis using True b by (auto simp: ix)
      qed
    qed
    finally show ?thesis .
  qed
  have "(case map (to_device fb) (torch_where c) of
      [b, i, j] \<Rightarrow>
        bind_result (broadcast2 (+) (tmap (\<lambda>v. v * int L) b) i) (\<lambda>src.
        bind_result (broadcast2 (+) (tmap (\<lambda>v. v * int L) b) j) (\<lambda>tgt.
        bind_result (reshape_infer (B * L) node) (\<lambda>x.
          let x = to_device fb x
          in bind_result (torch_stack2 src tgt) (\<lambda>edge_index.
             bind_result (index3 emb b i j) (\<lambda>edge_attr.
               Inr \<lparr>x = x, edge_index = edge_index,
                    edge_attr = to_device fb edge_attr\<rparr>)))))
    | _ \<Rightarrow> Inl ValueError) = Inr G"
    using run d unfolding make_graph_def fb emb ps(1) ps(2)
    by (simp add: bind_result_def Let_def c_def)
  then have "bind_result (broadcast2 (+) (tmap (\<lambda>v. v * int L) (W 0)) (W 1)) (\<lambda>src.
        bind_result (broadcast2 (+) (tmap (\<lambda>v. v * int L) (W 0)) (W 2)) (\<lambda>tgt.
        bind_result (reshape_infer (B * L) node) (\<lambda>x.
          let x = to_device fb x
          in bind_result (torch_stack2 src tgt) (\<lambda>edge_index.
             bind_result (index3 emb (W 0) (W 1) (W 2)) (\<lambda>edge_attr.
               Inr \<lparr>x = x, edge_index = edge_index,
                    edge_attr = to_device fb edge_attr\<rparr>))))) = Inr G"
    unfolding w by simp
  then obtain src tgt x0 ei ea where
    src: "broadcast2 (+) (tmap (\<lambda>v. v * int L) (W 0)) (W 1) = Inr src"
    and tgt: "broadcast2 (+) (tmap (\<lambda>v. v * int L) (W 0)) (W 2) = Inr tgt"
    and x0: "reshape_infer (B * L) node = Inr x0"
    and ei: "torch_stack2 src tgt = Inr ei"
    and ea: "index3 emb (W 0) (W 1) (W 2) = Inr ea"
    and G: "G = \<lparr>x = to_device fb x0, edge_index = ei, edge_attr = to_device fb ea\<rparr>"
    by (auto simp: Let_def dest!: bind_result_Inr)
  have src': "src = \<lparr>device = fb, shape = [length hits],
      elems = map (\<lambda>ix. int (ix ! 0) * int L + int (ix ! 1)) hits\<rparr>"
    using edge_endpoint [of L fb "device c" hits 1 src] src by (simp add: W_def)
  have tgt': "tgt = \<lparr>device = fb, shape = [length hits],
      elems = map (\<lambda>ix. int (ix ! 0) * int L + int (ix ! 2)) hits\<rparr>"
    using edge_endpoint [of L fb "device c" hits 2 tgt] tgt by (simp add: W_def)
  have "x G = to_device fb (node\<lparr>shape := [B * L, numel (shape node) div (B * L)]\<rparr>)"
    using x0 by (auto simp: G reshape_infer_def split: if_splits)
  moreover have "edge_index G = \<lparr>device = fb, shape = [2, length hits],
        elems = map (\<lambda>ix. int (ix ! 0) * int L + int (ix ! 1)) hits @
                map (\<lambda>ix. int (ix ! 0) * int L + int (ix ! 2)) hits\<rparr>"
    using ei by (simp add: G src' tgt' torch_stack2_def)
  moreover have "device (edge_attr G) = fb"
    by (simp add: G to_device_def)
  moreover have "shape (edge_attr G) = length hits # drop 3 (shape emb)"
    using index3_shape [OF ea] by (simp add: G to_device_def W_def)
  ultimately show ?thesis using fb hits by blast
qed

lemma edges_of_stacked:
  assumes "edge_index G = \<lparr>device = fb, shape = [2, length hits],
        elems = map f hits @ map g hits\<rparr>"
  shows "edges G = map (\<lambda>ix. (f ix, g ix)) hits"
proof -
  have "edges G = map (\<lambda>e. (f (hits ! e), g (hits ! e))) [0..<length hits]"
    by (simp add: edges_def num_edges_def assms tget_def ravel_def nth_append)
  also have "\<dots> = map (\<lambda>ix. (f ix, g ix)) hits"
    by (rule map_upt_nth)
  finally show ?thesis .
qed

lemma make_graph_edge_set:
  assumes "shape idx = [B, L]"
    and "take 2 (shape emb) = [B, L]"
    and "make_graph node idx emb = Inr G"
  shows "num_nodes G = B * L \<and>
    set (edges G) = {(s, t). \<exists>b i j. b < B \<and> i < L \<and> j < L \<and>
        s = int (b * L + i) \<and> t = int (b * L + j) \<and>
        0 < sint (torch_abs64 (tget idx [b, j] - tget idx [b, i]))}"
proof -
  from make_graph_result [OF assms] obtain hits fb where
    hits: "set hits = {ix. \<exists>b i j. ix = [b, i, j] \<and> b < B \<and> i < L \<and> j < L \<and>
                     0 < sint (torch_abs64 (tget idx [b, j] - tget idx [b, i]))}"
    and xg: "x G = to_device fb (node\<lparr>shape := [B * L, numel (shape node) div (B * L)]\<rparr>)"
    and ei: "edge_index G = \<lparr>device = fb, shape = [2, length hits],
        elems = map (\<lambda>ix. int (ix ! 0) * int L + int (ix ! 1)) hits @
                map (\<lambda>ix. int (ix ! 0) * int L + int (ix ! 2)) hits\<rparr>"
    by blast
  have nodes: "num_nodes G = B * L"
    by (simp add: num_nodes_def xg to_device_def)
  have "set (edges G) =
      (\<lambda>ix. (int (ix ! 0) * int L + int (ix ! 1), int (ix ! 0) * int L + int (ix ! 2))) ` set hits"
    by (simp add: edges_of_stacked [OF ei])
  also have "\<dots> = {(s, t). \<exists>b i j. b < B \<and> i < L \<and> j < L \<and>
        s = int (b * L + i) \<and> t = int (b * L + j) \<and>
        0 < sint (torch_abs64 (tget idx [b, j] - tget idx [b, i]))}"
    unfolding hits by (auto simp: image_iff) force
  finally show ?thesis using nodes by simp
qed

lemma fallback_cases:
  "fallback_to_cpu_if_mps dv = Inr fb \<Longrightarrow> fb = dv \<or> fb = torch_device ''cpu''"
  by (auto simp: fallback_to_cpu_if_mps_def split: if_splits)

lemma endpoint_returns:
  "\<exists>src. broadcast2 (+)
      (tmap (\<lambda>v. v * int L) (to_device fb \<lparr>device = dc, shape = [E], elems = bs\<rparr>))
      (to_device fb \<lparr>device = dc, shape = [E], elems = is\<rparr>) = Inr (src :: int tensor)
    \<and> shape src = [E] \<and> device src = fb"
  by (simp add: broadcast2_def pad_shape_def Let_def broadcastable_def broadcast_shape_def
      to_device_def tmap_def shape_tgen device_tgen)

lemma make_graph_returns:
  assumes sh: "shape idx = [B, L]"
    and emb: "shape emb = B' # L' # M' # rest"
    and le: "B \<le> B'" "L \<le> L'" "L \<le> M'"
    and n: "0 < B' * L'" "B' * L' < 2 ^ 63" "numel (shape node) mod (B' * L') = 0"
  shows "\<exists>G. make_graph node idx emb = Inr G \<and>
           shape (x G) = [B' * L', numel (shape node) div (B' * L')]"
proof -
  note ps = pairwise_shape [OF sh]
  from ps(3) obtain d where
    d: "broadcast2 (-) (idx\<lparr>shape := [B, 1, L]\<rparr>) (idx\<lparr>shape := [B, L, 1]\<rparr>) = Inr d"
    and shd: "shape d = [B, L, L]"
    by blast
  obtain fb where fb: "fallback_to_cpu_if_mps (device emb) = Inr fb"
    by (cases "type (device emb) = ''mps''") (simp_all add: fallback_to_cpu_if_mps_def)
  define c where "c = tmap (\<lambda>v. 0 < sint v) (tmap torch_abs64 d)"
  define hits where
    "hits = map (unravel [B, L, L]) (filter (\<lambda>n. elems c ! n) [0..<B * L * L])"
  define W where "W k = to_device fb
     \<lparr>device = device c, shape = [length hits], elems = map (\<lambda>ix. int (ix ! k)) hits\<rparr>" for k
  have shc: "shape c = [B, L, L]" by (simp add: c_def shd)
  have w: "map (to_device fb) (torch_where c) = [W 0, W 1, W 2]"
    using torch_where3 [OF shc] by (simp add: Let_def W_def hits_def)
  have valid: "valid_index [B, L, L] ix" if "ix \<in> set hits" for ix
    using that set_unravel_upt [of "[B, L, L]" "\<lambda>n. elems c ! n"]
    by (simp add: hits_def numel_def mult.assoc)
  obtain src where src: "broadcast2 (+) (tmap (\<lambda>v. v * int L') (W 0)) (W 1) = Inr src"
    and src_sh: "shape src = [length hits]" and src_dev: "device src = fb"
    unfolding W_def using endpoint_returns by blast
  obtain tgt where tgt: "broadcast2 (+) (tmap (\<lambda>v. v * int L') (W 0)) (W 2) = Inr tgt"
    and tgt_sh: "shape tgt = [length hits]" and tgt_dev: "device tgt = fb"
    unfolding W_def using endpoint_returns by blast
  have x0: "reshape_infer (B' * L') node =
      Inr (node\<lparr>shape := [B' * L', numel (shape node) div (B' * L')]\<rparr>)"
    using n by (simp add: reshape_infer_def)
  have ei: "\<exists>ei. torch_stack2 src tgt = Inr ei"
    by (simp add: torch_stack2_def src_sh tgt_sh src_dev tgt_dev)
  have pos: "wrap_index B' (int (hits ! e ! 0)) \<noteq> None \<and>
             wrap_index L' (int (hits ! e ! 1)) \<noteq> None \<and>
             wrap_index M' (int (hits ! e ! 2)) \<noteq> None" if "e < length hits" for e
  proof -
    from valid [of "hits ! e"] that obtain b i j where
      "hits ! e = [b, i, j]" "b < B" "i < L" "j < L"
      by (auto simp: valid_index3)
    then show ?thesis using le by (simp add: wrap_index_def)
  qed
  have ea: "\<exists>ea. index3 emb (W 0) (W 1) (W 2) = Inr ea"
  proof -
    have dev: "fb = device emb \<or> fb = torch_device ''cpu''"
      using fallback_cases [OF fb] by simp
    have "list_all (list_all (\<lambda>p. p \<noteq> None))
        (map (\<lambda>e. [wrap_index B' (elems (W 0) ! e), wrap_index L' (elems (W 1) ! e),
                   wrap_index M' (elems (W 2) ! e)]) [0..<length hits])"
      using pos by (simp add: list_all_iff W_def to_device_def)
    then show ?thesis
      using dev by (simp add: index3_def emb W_def to_device_def Let_def)
  qed
  from ei ea obtain ei' ea' where
    "torch_stack2 src tgt = Inr ei'" "index3 emb (W 0) (W 1) (W 2) = Inr ea'" by blast
  then have "make_graph node idx emb =
      Inr \<lparr>x = to_device fb (node\<lparr>shape := [B' * L', numel (shape node) div (B' * L')]\<rparr>),
           edge_index = ei', edge_attr = to_device fb ea'\<rparr>"
    using d src tgt x0 unfolding make_graph_def fb ps(1) ps(2)
    by (simp add: bind_result_def Let_def emb c_def [symmetric] w)
  then show ?thesis by (simp add: to_device_def)
qed

section \<open>Devices and failures of \<open>make_graph\<close>\<close>

lemma broadcast2_device: "broadcast2 f a b = Inr r \<Longrightarrow> device r = device a"
  by (auto simp: broadcast2_def Let_def device_tgen split: if_splits)

lemma broadcast2_error: "broadcast2 f a b = Inl e \<Longrightarrow> e = RuntimeError"
  by (auto simp: broadcast2_def Let_def split: if_splits)

lemma broadcast2_rank:
  "broadcast2 f a b = Inr r \<Longrightarrow> length (shape r) = max (length (shape a)) (length (shape b))"
  by (auto simp: broadcast2_def Let_def shape_tgen broadcast_shape_def pad_shape_def
      split: if_splits)

lemma torch_stack2_device: "torch_stack2 a b = Inr r \<Longrightarrow> device r = device a"
  by (auto simp: torch_stack2_def split: if_splits)

lemma torch_stack2_error: "torch_stack2 a b = Inl e \<Longrightarrow> e = RuntimeError"
  by (auto simp: torch_stack2_def split: if_splits)

lemma reshape_infer_error: "reshape_infer n t = Inl e \<Longrightarrow> e = RuntimeError"
  by (auto simp: reshape_infer_def split: if_splits)

lemma index3_error: "index3 t b i j = Inl e \<Longrightarrow> e \<noteq> ValueError"
  by (auto simp: index3_def Let_def split: list.splits if_splits)

lemma index_none_error: "index_none n k t = Inl e \<Longrightarrow> e = IndexError \<and> length (shape t) < n"
  by (auto simp: index_none_def split: if_splits)

lemma index_none_rank: "index_none n k t = Inr r \<Longrightarrow> length (shape r) = Suc (length (shape t))"
  by (auto simp: index_none_def split: if_splits)

lemma length_torch_where: "length (torch_where c) = length (shape c)"
  by (simp add: torch_where_def Let_def)

lemma bind_result_Inl:
  "bind_result r f = Inl e \<Longrightarrow> r = Inl e \<or> (\<exists>v. r = Inr v \<and> f v = Inl e)"
  by (cases r) (simp_all add: bind_result_def)

lemma make_graph_devices:
  assumes run: "make_graph node idx emb = Inr G"
    and fb: "fallback_to_cpu_if_mps (device emb) = Inr fb"
  shows "device (x G) = fb \<and> device (edge_index G) = fb \<and> device (edge_attr G) = fb"
proof -
  from run obtain B L where BL: "take 2 (shape emb) = [B, L]"
    unfolding make_graph_def fb
    by (auto simp: bind_result_def split: list.splits)
  from run obtain sep where
    rest: "(let sep = tmap torch_abs64 sep
           in case map (to_device fb) (torch_where (tmap (\<lambda>v. 0 < sint v) sep)) of
                [b, i, j] \<Rightarrow>
                  bind_result (broadcast2 (+) (tmap (\<lambda>v. v * int L) b) i) (\<lambda>src.
                  bind_result (broadcast2 (+) (tmap (\<lambda>v. v * int L) b) j) (\<lambda>tgt.
                  bind_result (reshape_infer (B * L) node) (\<lambda>x.
                    let x = to_device fb x
                    in bind_result (torch_stack2 src tgt) (\<lambda>edge_index.
                       bind_result (index3 emb b i j) (\<lambda>edge_attr.
                         Inr \<lparr>x = x, edge_index = edge_index,
                              edge_attr = to_device fb edge_attr\<rparr>)))))
              | _ \<Rightarrow> Inl ValueError) = Inr G"
    unfolding make_graph_def fb BL
    by (auto simp: bind_result_def split: sum.splits)
  then obtain b i j where
    w: "map (to_device fb) (torch_where (tmap (\<lambda>v. 0 < sint v) (tmap torch_abs64 sep))) = [b, i, j]"
    and body: "bind_result (broadcast2 (+) (tmap (\<lambda>v. v * int L) b) i) (\<lambda>src.
                  bind_result (broadcast2 (+) (tmap (\<lambda>v. v * int L) b) j) (\<lambda>tgt.
                  bind_result (reshape_infer (B * L) node) (\<lambda>x.
                    let x = to_device fb x
                    in bind_result (torch_stack2 src tgt) (\<lambda>edge_index.
                       bind_result (index3 emb b i j) (\<lambda>edge_attr.
                         Inr \<lparr>x = x, edge_index = edge_index,
                              edge_attr = to_device fb edge_attr\<rparr>))))) = Inr G"
    by (auto simp: Let_def split: list.splits)
  from body obtain src tgt x0 ei ea where
    src: "broadcast2 (+) (tmap (\<lambda>v. v * int L) b) i = Inr src"
    and ei: "torch_stack2 src tgt = Inr ei"
    and G: "G = \<lparr>x = to_device fb x0, edge_index = ei, edge_attr = to_device fb ea\<rparr>"
    by (auto simp: Let_def dest!: bind_result_Inr)
  have "device b = fb"
    using w by (auto simp: to_device_def)
  then have "device ei = fb"
    using broadcast2_device [OF src] torch_stack2_device [OF ei] by simp
  then show ?thesis
    by (simp add: G to_device_def)
qed

lemma make_graph_unpack_emb:
  "length (shape emb) < 2 \<Longrightarrow> make_graph node idx emb = Inl ValueError"
proof -
  assume "length (shape emb) < 2"
  then have "shape emb = [] \<or> (\<exists>d. shape emb = [d])"
    by (cases "shape emb") (auto simp: length_Suc_conv)
  then show ?thesis
    by (auto simp: make_graph_def fallback_to_cpu_if_mps_def bind_result_def)
qed

lemma make_graph_value_error:
  assumes run: "make_graph node idx emb = Inl ValueError"
  shows "length (shape emb) < 2 \<or> 2 < length (shape idx)"
proof (rule ccontr)
  assume "\<not> (length (shape emb) < 2 \<or> 2 < length (shape idx))"
  then have e2: "2 \<le> length (shape emb)" and i2: "length (shape idx) \<le> 2" by simp_all
  obtain fb where fb: "fallback_to_cpu_if_mps (device emb) = Inr fb"
    by (cases "type (device emb) = ''mps''") (simp_all add: fallback_to_cpu_if_mps_def)
  from e2 obtain B L where BL: "take 2 (shape emb) = [B, L]"
    by (cases "shape emb"; cases "tl (shape emb)") auto
  show False
  proof (cases "length (shape idx) = 2")
    case False
    with i2 have "length (shape idx) < 2" by simp
    then have "index_none 2 1 idx = Inl IndexError"
      by (simp add: index_none_def)
    with run show False
      unfolding make_graph_def fb BL by (simp add: bind_result_def)
  next
    case True
    then obtain B0 L0 where sh: "shape idx = [B0, L0]"
      by (cases "shape idx"; cases "tl (shape idx)") auto
    note ps = pairwise_shape [OF sh]
    from ps(3) obtain d where
      d: "broadcast2 (-) (idx\<lparr>shape := [B0, 1, L0]\<rparr>) (idx\<lparr>shape := [B0, L0, 1]\<rparr>) = Inr d"
      and shd: "shape d = [B0, L0, L0]"
      by blast
    define c where "c = tmap (\<lambda>v. 0 < sint v) (tmap torch_abs64 d)"
    have shc: "shape c = [B0, L0, L0]" by (simp add: c_def shd)
    from torch_where3 [OF shc] obtain b i j where
      w: "map (to_device fb) (torch_where c) = [b, i, j]"
      by (simp add: Let_def)
    have body: "bind_result (broadcast2 (+) (tmap (\<lambda>v. v * int L) b) i) (\<lambda>src.
                  bind_result (broadcast2 (+) (tmap (\<lambda>v. v * int L) b) j) (\<lambda>tgt.
                  bind_result (reshape_infer (B * L) node) (\<lambda>x.
                    let x = to_device fb x
                    in bind_result (torch_stack2 src tgt) (\<lambda>edge_index.
                       bind_result (index3 emb b i j) (\<lambda>edge_attr.
                         Inr \<lparr>x = x, edge_index = edge_index,
                              edge_attr = to_device fb edge_attr\<rparr>))))) = Inl ValueError"
      using run d unfolding make_graph_def fb BL ps(1) ps(2)
      by (simp add: bind_result_def Let_def c_def [symmetric] w)
    then show False
      by (auto simp: Let_def dest!: bind_result_Inl broadcast2_error reshape_infer_error
          torch_stack2_error index3_error)
  qed
qed

section \<open>The forward pass\<close>

lemma reshape_returns:
  "numel s = numel (shape t) \<Longrightarrow> reshape s t = Inr (t\<lparr>shape := s\<rparr>)"
  by (simp add: reshape_def)

lemma permute_0312:
  assumes "shape t = [a, b, c, e]"
  shows "\<exists>r. permute [0, 3, 1, 2] t = Inr r \<and> shape r = [a, e, b, c] \<and> device r = device t"
  using assms by (simp add: permute_def shape_tgen device_tgen)

lemma broadcast_weights:
  assumes "shape w = [B, N, L, 1]" "shape m = [B, N, L, D]" "device w = device m"
  shows "\<exists>r. broadcast2 f w m = Inr r \<and> shape r = [B, N, L, D] \<and> device r = device m"
  using assms
  by (simp add: broadcast2_def pad_shape_def Let_def broadcastable_def broadcast_shape_def
      shape_tgen device_tgen)

lemma sum_dim1_returns:
  assumes "shape t = d0 # d1 # rest"
  shows "\<exists>r. sum_dim1 t = Inr r \<and> shape r = d0 # rest \<and> device r = device t"
  using assms by (simp add: sum_dim1_def shape_tgen device_tgen)

lemma cat_last_returns:
  assumes "shape a = d0 # p @ [ka]" "shape b = d0 # p @ [kb]" "device a = device b"
  shows "\<exists>r. cat_last a b = Inr r \<and> shape r = d0 # p @ [ka + kb] \<and> device r = device a"
  using assms by (simp add: cat_last_def shape_tgen device_tgen butlast_append)

lemma layer_mapsD:
  assumes "layer_maps dv din dout f" "device t = dv" "shape t = p @ [din]"
  shows "\<exists>t'. f t = Inr t' \<and> device t' = dv \<and> shape t' = p @ [dout]"
  using assms unfolding layer_maps_def by (metis butlast_snoc last_snoc snoc_eq_iff_butlast)

lemma numel_simps [simp]:
  "numel [] = 1" "numel (d # ds) = d * numel ds"
  by (simp_all add: numel_def)

lemma forward_run:
  assumes built: "built self fb node_dim_in node_dim_hidden edge_dim_in edge_dim_hidden"
    and fb: "fallback_to_cpu_if_mps (parameters_device self) = Inr fb"
    and sh_seq: "shape seq1hot = [B, L, 21]"
    and sh_idx: "shape idx = [B, L]"
    and sh_msa: "shape msa = [B, N, L, node_dim_in]"
    and sh_pair: "shape pair = [B, L, L, edge_dim_in]"
    and dev: "device seq1hot = parameters_device self" "device idx = parameters_device self"
      "device msa = parameters_device self" "device pair = parameters_device self"
    and pos: "0 < B" "0 < N" "0 < L" "B * L < 2 ^ 63"
  shows "\<exists>xyz. forward self seq1hot idx msa pair = Inr (xyz, self\<lparr>transformer_device := fb\<rparr>) \<and>
           shape xyz = [B, L, 3, 3]"
proof -
  define dv where "dv = parameters_device self"
  note b = built [unfolded built_def, folded dv_def]
  have t3: "take 3 (shape msa) = [B, N, L]" by (simp add: sh_msa)
  obtain msa1 where s1: "norm_node self msa = Inr msa1"
    and d1: "device msa1 = dv" and h1: "shape msa1 = [B, N, L, node_dim_in]"
    using layer_mapsD [of dv node_dim_in node_dim_in "norm_node self" msa "[B, N, L]"] b dev sh_msa
    by (auto simp: dv_def)
  obtain pair1 where s2: "norm_edge self pair = Inr pair1"
    and d2: "device pair1 = dv" and h2: "shape pair1 = [B, L, L, edge_dim_in]"
    using layer_mapsD [of dv edge_dim_in edge_dim_in "norm_edge self" pair "[B, L, L]"] b dev sh_pair
    by (auto simp: dv_def)
  obtain w where s3: "encoder_seq self msa1 = Inr w"
    and d3: "device w = dv" and h3: "numel (shape w) = B * L * N"
    using b d1 h1 pos unfolding weights_sequences_def by blast
  have s4: "reshape [B, L, 1, N] w = Inr (w\<lparr>shape := [B, L, 1, N]\<rparr>)"
    by (rule reshape_returns) (simp add: h3)
  obtain w_seq where s5: "permute [0, 3, 1, 2] (w\<lparr>shape := [B, L, 1, N]\<rparr>) = Inr w_seq"
    and d5: "device w_seq = dv" and h5: "shape w_seq = [B, N, L, 1]"
    using permute_0312 [of "w\<lparr>shape := [B, L, 1, N]\<rparr>" B L 1 N] d3 by auto
  obtain msa2 where s6: "broadcast2 fp_mul w_seq msa1 = Inr msa2"
    and d6: "device msa2 = dv" and h6: "shape msa2 = [B, N, L, node_dim_in]"
    using broadcast_weights [of w_seq B N L msa1 node_dim_in fp_mul] h5 h1 d5 d1 by auto
  obtain msa3 where s7: "sum_dim1 msa2 = Inr msa3"
    and d7: "device msa3 = dv" and h7: "shape msa3 = [B, L, node_dim_in]"
    using sum_dim1_returns [of msa2 B N "[L, node_dim_in]"] h6 d6 by auto
  obtain node0 where s8: "cat_last msa3 seq1hot = Inr node0"
    and d8: "device node0 = dv" and h8: "shape node0 = [B, L, node_dim_in + 21]"
    using cat_last_returns [of msa3 B "[L]" node_dim_in seq1hot 21] h7 sh_seq d7 dev
    by (auto simp: dv_def)
  obtain node where s9: "embed_x self node0 = Inr node"
    and d9: "device node = dv" and h9: "shape node = [B, L, node_dim_hidden]"
    using layer_mapsD [of dv "node_dim_in + 21" node_dim_hidden "embed_x self" node0 "[B, L]"]
      b d8 h8 by auto
  obtain seqsep where s10: "get_seqsep idx = Inr seqsep"
    and d10: "device seqsep = dv" and h10: "shape seqsep = [B, L, L, 1]"
    using get_seqsep_entries [OF sh_idx] dev by (auto simp: dv_def)
  obtain pair2 where s11: "cat_last pair1 seqsep = Inr pair2"
    and d11: "device pair2 = dv" and h11: "shape pair2 = [B, L, L, edge_dim_in + 1]"
    using cat_last_returns [of pair1 B "[L, L]" edge_dim_in seqsep 1] h2 h10 d2 d10 by auto
  obtain pair3 where s12: "embed_e self pair2 = Inr pair3"
    and d12: "device pair3 = dv" and h12: "shape pair3 = [B, L, L, edge_dim_hidden]"
    using layer_mapsD [of dv "edge_dim_in + 1" edge_dim_hidden "embed_e self" pair2 "[B, L, L]"]
      b d11 h11 by auto
  have bl: "0 < B * L" using pos by simp
  obtain G where s13: "make_graph node idx pair3 = Inr G"
    using make_graph_returns [OF sh_idx h12, of node] bl pos h9 by auto
  have fb13: "fallback_to_cpu_if_mps (device pair3) = Inr fb"
    using fb by (simp add: d12 dv_def)
  have t2: "take 2 (shape pair3) = [B, L]" by (simp add: h12)
  from make_graph_result [OF sh_idx t2 s13] obtain hits fb' where
    fb': "fallback_to_cpu_if_mps (device pair3) = Inr fb'"
    and xg': "x G = to_device fb' (node\<lparr>shape := [B * L, numel (shape node) div (B * L)]\<rparr>)"
    and eg': "edge_index G = \<lparr>device = fb', shape = [2, length hits],
        elems = map (\<lambda>ix. int (ix ! 0) * int L + int (ix ! 1)) hits @
                map (\<lambda>ix. int (ix ! 0) * int L + int (ix ! 2)) hits\<rparr>"
    and ag': "shape (edge_attr G) = length hits # drop 3 (shape pair3)"
    by blast
  have "fb' = fb" using fb' fb13 by simp
  then have xg: "x G = to_device fb (node\<lparr>shape := [B * L, numel (shape node) div (B * L)]\<rparr>)"
    using xg' by simp
  have eg: "shape (edge_index G) = [2, length hits]"
    by (simp add: eg')
  have ag: "shape (edge_attr G) = [length hits, edge_dim_hidden]"
    by (simp add: ag' h12)
  have dg: "device (x G) = fb" "device (edge_index G) = fb" "device (edge_attr G) = fb"
    using make_graph_devices [OF s13 fb13] by simp_all
  have "numel (shape node) div (B * L) = node_dim_hidden"
    using bl by (simp add: h9)
  then have hg: "shape (x G) = [B * L, node_dim_hidden]"
    by (simp add: xg to_device_def)
  obtain Gout where s14: "transformer self fb G = Inr Gout"
    and d14: "device (x Gout) = fb" and h14: "shape (x Gout) = [B * L, node_dim_hidden]"
    using b dg hg eg ag bl unfolding keeps_nodes_def by blast
  obtain xyz0 where s15: "get_xyz self (to_device dv (x Gout)) = Inr xyz0"
    and h15: "shape xyz0 = [B * L, 9]"
    using layer_mapsD [of dv node_dim_hidden 9 "get_xyz self" "to_device dv (x Gout)" "[B * L]"]
      b h14 by (auto simp: to_device_def)
  have s16: "reshape [B, L, 3, 3] xyz0 = Inr (xyz0\<lparr>shape := [B, L, 3, 3]\<rparr>)"
    by (rule reshape_returns) (simp add: h15)
  have "forward self seq1hot idx msa pair =
      Inr (xyz0\<lparr>shape := [B, L, 3, 3]\<rparr>, self\<lparr>transformer_device := fb\<rparr>)"
    using fb s1 s2 s3 s4 s5 s6 s7 s8 s9 s10 s11 s12 s13 s14 s15 s16
    unfolding forward_def t3 dv_def
    by (simp add: bind_result_def Let_def)
  then show ?thesis by simp
qed

lemma forward_frame:
  assumes run: "forward self seq1hot idx msa pair = Inr (xyz, self')"
    and fb: "fallback_to_cpu_if_mps (parameters_device self) = Inr fb"
  shows "self' = self\<lparr>transformer_device := fb\<rparr> \<and>
    (\<exists>node emb G. make_graph node idx emb = Inr G)"
proof -
  from run fb obtain node emb G where
    "make_graph node idx emb = Inr G" "self' = self\<lparr>transformer_device := fb\<rparr>"
    unfolding forward_def
    by (auto simp: Let_def split: list.splits dest!: bind_result_Inr)
  then show ?thesis by blast
qed

section \<open>Stand-in layers and sample inputs\<close>

lemma built_stand_in:
  "built (stand_in dv a b c d) fb a b c d"
  by (auto simp: built_def stand_in_def layer_maps_def weights_sequences_def keeps_nodes_def
      zeros_layer_def ones_weights_def shape_tgen device_tgen)

lemma stand_in_fallback:
  "fallback_to_cpu_if_mps (parameters_device (stand_in (torch_device ''mps'') a b c d))
     = Inr (torch_device ''cpu'')"
  by (simp add: stand_in_def fallback_to_cpu_if_mps_def torch_device_def)

lemma shape_zeros [simp]: "shape (zeros dv s) = s"
  by (simp add: zeros_def shape_tgen)

lemma device_zeros [simp]: "device (zeros dv s) = dv"
  by (simp add: zeros_def device_tgen)

lemma shape_residues [simp]: "shape (residues dv vs) = [1, length vs]"
  by (simp add: residues_def)

lemma device_residues [simp]: "device (residues dv vs) = dv"
  by (simp add: residues_def)

lemma parameters_device_stand_in [simp]: "parameters_device (stand_in dv a b c d) = dv"
  by (simp add: stand_in_def)

lemma tget_residues:
  "tget (residues dv [v0, v1]) [0, 0] = v0" "tget (residues dv [v0, v1]) [0, 1] = v1"
  by (simp_all add: residues_def tget_def ravel_def)

lemma sample_run:
  "\<exists>xyz. forward (stand_in (torch_device ''mps'') 2 3 1 2)
       (zeros (torch_device ''mps'') [1, 2, 21]) (residues (torch_device ''mps'') [0, 1])
       (zeros (torch_device ''mps'') [1, 1, 2, 2]) (zeros (torch_device ''mps'') [1, 2, 2, 1])
     = Inr (xyz, (stand_in (torch_device ''mps'') 2 3 1 2)
                   \<lparr>transformer_device := torch_device ''cpu''\<rparr>) \<and>
     shape xyz = [1, 2, 3, 3]"
  using forward_run [OF built_stand_in stand_in_fallback,
      of "zeros (torch_device ''mps'') [1, 2, 21]" 1 2 "residues (torch_device ''mps'') [0, 1]"
         "zeros (torch_device ''mps'') [1, 1, 2, 2]" 1 2 "zeros (torch_device ''mps'') [1, 2, 2, 1]" 1
         3 2]
  by simp

lemma sample_graph:
  "\<exists>G. make_graph (zeros (torch_device ''mps'') [1, 2, 3]) (residues (torch_device ''mps'') [0, 1])
          (zeros (torch_device ''mps'') [1, 2, 2, 2]) = Inr G \<and>
        shape (x G) = [2, 3]"
  using make_graph_returns [of "residues (torch_device ''mps'') [0, 1]" 1 2
      "zeros (torch_device ''mps'') [1, 2, 2, 2]" 1 2 2 "[2]" "zeros (torch_device ''mps'') [1, 2, 3]"]
  by simp

lemma forward_unpack_msa:
  "length (shape msa) < 3 \<Longrightarrow> forward self seq1hot idx msa pair = Inl ValueError"
proof -
  assume "length (shape msa) < 3"
  then have "shape msa = [] \<or> (\<exists>a. shape msa = [a]) \<or> (\<exists>a b. shape msa = [a, b])"
    by (cases "shape msa"; cases "tl (shape msa)"; cases "tl (tl (shape msa))") auto
  then show ?thesis
    by (auto simp: forward_def Let_def fallback_to_cpu_if_mps_def bind_result_def)
qed





section \<open>The claims about the graph and the network\<close>

text \<open>
  Claim C4, as the code has it. For every node tensor, every index tensor \<open>idx\<close> of
  shape \<open>(B, L)\<close> and every embedding tensor \<open>emb\<close> whose first two dimensions are \<open>B\<close>
  and \<open>L\<close> (the code reads both from \<open>emb.shape[:2]\<close>), a graph that \<open>make_graph\<close>
  returns has exactly \<open>B*L\<close> nodes, and every edge is \<open>(b*L+i, b*L+j)\<close> with both
  endpoints in the block of batch \<open>b\<close>, with distinct residue indices, hence no
  self-loop, and with the reversed edge present.
\<close>

theorem make_graph_edges:
  assumes "shape idx = [B, L]"
    and "take 2 (shape emb) = [B, L]"
    and "make_graph node idx emb = Inr G"
  shows "num_nodes G = B * L \<and>
    (\<forall>(s, t) \<in> set (edges G). \<exists>b i j. b < B \<and> i < L \<and> j < L \<and>
        s = int (b * L + i) \<and> t = int (b * L + j) \<and>
        int (b * L) \<le> s \<and> s < int ((b + 1) * L) \<and>
        int (b * L) \<le> t \<and> t < int ((b + 1) * L) \<and>
        tget idx [b, i] \<noteq> tget idx [b, j] \<and> s \<noteq> t \<and>
        (t, s) \<in> set (edges G))"
proof -
  note es = make_graph_edge_set [OF assms]
  have "\<exists>b i j. b < B \<and> i < L \<and> j < L \<and>
        s = int (b * L + i) \<and> t = int (b * L + j) \<and>
        int (b * L) \<le> s \<and> s < int ((b + 1) * L) \<and>
        int (b * L) \<le> t \<and> t < int ((b + 1) * L) \<and>
        tget idx [b, i] \<noteq> tget idx [b, j] \<and> s \<noteq> t \<and>
        (t, s) \<in> set (edges G)"
    if st: "(s, t) \<in> set (edges G)" for s t
  proof -
    from st es obtain b i j where
      b: "b < B" "i < L" "j < L"
      and pos: "0 < sint (torch_abs64 (tget idx [b, j] - tget idx [b, i]))"
      and s: "s = int (b * L + i)" and t: "t = int (b * L + j)"
      by auto
    have ne: "tget idx [b, i] \<noteq> tget idx [b, j]"
      using abs64_pos_distinct [OF pos] by simp
    have "(t, s) \<in> set (edges G)"
      using es b abs64_pos_sym [OF pos] s t by auto
    moreover have "i \<noteq> j" using ne by auto
    moreover have "s < int ((b + 1) * L)" "t < int ((b + 1) * L)"
      using b by (simp_all add: s t algebra_simps)
    ultimately show ?thesis
      using b ne s t by (intro exI [of _ b] exI [of _ i] exI [of _ j]) simp
  qed
  with es show ?thesis by blast
qed

theorem make_graph_edges_witness:
  "shape (residues (torch_device ''mps'') [0, 1]) = [1, 2] \<and>
   take 2 (shape (zeros (torch_device ''mps'') [1, 2, 2, 2])) = [1, 2] \<and>
   map_sum id (\<lambda>G. num_nodes G = 1 * 2 \<and> (0, 1) \<in> set (edges G) \<and>
                   list_all (\<lambda>(s, t). s \<noteq> t \<and> (t, s) \<in> set (edges G)) (edges G))
     (make_graph (zeros (torch_device ''mps'') [1, 2, 3]) (residues (torch_device ''mps'') [0, 1])
        (zeros (torch_device ''mps'') [1, 2, 2, 2])) = Inr True"
proof -
  let ?idx = "residues (torch_device ''mps'') [0, 1]"
  let ?emb = "zeros (torch_device ''mps'') [1, 2, 2, 2]"
  have h1: "shape ?idx = [1, 2]" by simp
  have h2: "take 2 (shape ?emb) = [1, 2]" by simp
  from sample_graph obtain G where
    run: "make_graph (zeros (torch_device ''mps'') [1, 2, 3]) ?idx ?emb = Inr G" by blast
  have "(0, 1) \<in> set (edges G)"
    using make_graph_edge_set [OF h1 h2 run] tget_residues [of "torch_device ''mps''" 0 1]
    by (auto simp: torch_abs64_def intro!: exI [of _ 0] exI [of _ 1])
  moreover have "num_nodes G = 1 * 2 \<and>
      list_all (\<lambda>(s, t). s \<noteq> t \<and> (t, s) \<in> set (edges G)) (edges G)"
    using make_graph_edges [OF h1 h2 run] by (fastforce simp: list_all_iff)
  ultimately show ?thesis using run h1 h2 by simp
qed

text \<open>
  Claim C4, as the specification words it, fails for an embedding tensor whose leading
  dimensions differ from the shape of \<open>idx\<close>: with \<open>idx\<close> of shape \<open>(1, 2)\<close> and \<open>emb\<close> of
  shape \<open>(1, 3, 3, 2)\<close> the graph has three nodes, not two.
\<close>

theorem make_graph_nodes_follow_emb:
  "shape (residues (torch_device ''cpu'') [0, 1]) = [1, 2] \<and>
   map_sum id num_nodes
     (make_graph (zeros (torch_device ''cpu'') [1, 3, 3]) (residues (torch_device ''cpu'') [0, 1])
        (zeros (torch_device ''cpu'') [1, 3, 3, 2])) = Inr 3"
proof -
  from make_graph_returns [of "residues (torch_device ''cpu'') [0, 1]" 1 2
      "zeros (torch_device ''cpu'') [1, 3, 3, 2]" 1 3 3 "[2]" "zeros (torch_device ''cpu'') [1, 3, 3]"]
  obtain G where "make_graph (zeros (torch_device ''cpu'') [1, 3, 3])
      (residues (torch_device ''cpu'') [0, 1]) (zeros (torch_device ''cpu'') [1, 3, 3, 2]) = Inr G"
    and "shape (x G) = [3, 3]"
    by auto
  then show ?thesis by (simp add: num_nodes_def)
qed






text \<open>
  Claim C8, as the code has it. The code of the repository moves tensors and
  parameters itself: \<open>make_graph\<close> puts the node features, the edge indices and the
  edge attributes of the graph it returns on \<open>fallback_to_cpu_if_mps(emb.device)\<close>, and a
  forward pass that returns leaves the transformer's parameters on
  \<open>fallback_to_cpu_if_mps\<close> of the device of the module's parameters, which it does not
  move. That device is the CPU when the given one is of type \<open>'mps'\<close>, and the given
  one otherwise.
\<close>

theorem device_moves:
  "(make_graph node idx emb = Inr G \<and> fallback_to_cpu_if_mps (device emb) = Inr fb \<longrightarrow>
      device (x G) = fb \<and> device (edge_index G) = fb \<and> device (edge_attr G) = fb) \<and>
   (forward self seq1hot idx' msa pair = Inr (xyz, self') \<and>
    fallback_to_cpu_if_mps (parameters_device self) = Inr fb' \<longrightarrow>
      transformer_device self' = fb' \<and> parameters_device self' = parameters_device self)"
proof (intro conjI impI)
  assume a: "make_graph node idx emb = Inr G \<and> fallback_to_cpu_if_mps (device emb) = Inr fb"
  then show "device (x G) = fb" "device (edge_index G) = fb" "device (edge_attr G) = fb"
    using make_graph_devices [of node idx emb G fb] by simp_all
next
  assume a: "forward self seq1hot idx' msa pair = Inr (xyz, self') \<and>
    fallback_to_cpu_if_mps (parameters_device self) = Inr fb'"
  then show "transformer_device self' = fb'" "parameters_device self' = parameters_device self"
    using forward_frame [of self seq1hot idx' msa pair xyz self' fb'] by simp_all
qed

theorem device_moves_witness:
  "map_sum id (\<lambda>G. (device (x G), device (edge_index G), device (edge_attr G)))
     (make_graph (zeros (torch_device ''mps'') [1, 2, 3]) (residues (torch_device ''mps'') [0, 1])
        (zeros (torch_device ''mps'') [1, 2, 2, 2]))
     = Inr (torch_device ''cpu'', torch_device ''cpu'', torch_device ''cpu'') \<and>
   map_sum id (\<lambda>(xyz, self'). (transformer_device self', parameters_device self'))
     (forward (stand_in (torch_device ''mps'') 2 3 1 2)
       (zeros (torch_device ''mps'') [1, 2, 21]) (residues (torch_device ''mps'') [0, 1])
       (zeros (torch_device ''mps'') [1, 1, 2, 2]) (zeros (torch_device ''mps'') [1, 2, 2, 1]))
     = Inr (torch_device ''cpu'', torch_device ''mps'')"
proof -
  from sample_graph obtain G where
    g: "make_graph (zeros (torch_device ''mps'') [1, 2, 3]) (residues (torch_device ''mps'') [0, 1])
        (zeros (torch_device ''mps'') [1, 2, 2, 2]) = Inr G" by blast
  from sample_run obtain xyz self' where
    run: "forward (stand_in (torch_device ''mps'') 2 3 1 2)
       (zeros (torch_device ''mps'') [1, 2, 21]) (residues (torch_device ''mps'') [0, 1])
       (zeros (torch_device ''mps'') [1, 1, 2, 2]) (zeros (torch_device ''mps'') [1, 2, 2, 1])
     = Inr (xyz, self')"
    by blast
  have f1: "fallback_to_cpu_if_mps (device (zeros (torch_device ''mps'') [1, 2, 2, 2]))
      = Inr (torch_device ''cpu'')"
    by (simp add: fallback_to_cpu_if_mps_def torch_device_def)
  from device_moves [of "zeros (torch_device ''mps'') [1, 2, 3]" "residues (torch_device ''mps'') [0, 1]"
      "zeros (torch_device ''mps'') [1, 2, 2, 2]" G "torch_device ''cpu''"
      "stand_in (torch_device ''mps'') 2 3 1 2" "zeros (torch_device ''mps'') [1, 2, 21]"
      "residues (torch_device ''mps'') [0, 1]" "zeros (torch_device ''mps'') [1, 1, 2, 2]"
      "zeros (torch_device ''mps'') [1, 2, 2, 1]" xyz self' "torch_device ''cpu''"]
    g run f1 stand_in_fallback [of 2 3 1 2]
  show ?thesis by simp
qed

text \<open>
  Claim C8, as the specification words it, fails: on tensors of an MPS device
  \<open>make_graph\<close> returns a graph whose node features are on the CPU.
\<close>

theorem make_graph_moves_to_cpu:
  "device (zeros (torch_device ''mps'') [1, 2, 3]) = torch_device ''mps'' \<and>
   map_sum id (\<lambda>G. device (x G))
     (make_graph (zeros (torch_device ''mps'') [1, 2, 3]) (residues (torch_device ''mps'') [0, 1])
        (zeros (torch_device ''mps'') [1, 2, 2, 2]))
     = Inr (torch_device ''cpu'')"
proof -
  from sample_graph obtain G where
    g: "make_graph (zeros (torch_device ''mps'') [1, 2, 3]) (residues (torch_device ''mps'') [0, 1])
        (zeros (torch_device ''mps'') [1, 2, 2, 2]) = Inr G" by blast
  have f1: "fallback_to_cpu_if_mps (device (zeros (torch_device ''mps'') [1, 2, 2, 2]))
      = Inr (torch_device ''cpu'')"
    by (simp add: fallback_to_cpu_if_mps_def torch_device_def)
  from make_graph_devices [OF g f1] g show ?thesis by simp
qed

text \<open>
  Claim C9, as the code has it. The helpers raise nothing: \<open>fallback_to_cpu_if_mps\<close>
  returns for every device and \<open>cuda_amp_autocast\<close> for every flag and function. The
  repository's own statements do raise one built-in exception, the ValueError of a
  tuple unpacking that does not fit: \<open>make_graph\<close> raises it when \<open>emb\<close> has fewer than
  two dimensions, and raises it only then or when \<open>idx\<close> has more than two; the forward
  pass raises it when \<open>msa\<close> has fewer than three dimensions.
\<close>

theorem own_failures:
  "(\<exists>d'. fallback_to_cpu_if_mps d = Inr d') \<and>
   (\<exists>g. cuda_amp_autocast cuda_is_available autocast enabled func = Inr g) \<and>
   (length (shape emb) < 2 \<longrightarrow> make_graph node idx emb = Inl ValueError) \<and>
   (make_graph node idx emb = Inl ValueError \<longrightarrow>
      length (shape emb) < 2 \<or> 2 < length (shape idx)) \<and>
   (length (shape msa) < 3 \<longrightarrow> forward self seq1hot idx' msa pair = Inl ValueError)"
  using make_graph_unpack_emb [of emb node idx] make_graph_value_error [of node idx emb]
    forward_unpack_msa [of msa self seq1hot idx' pair]
  by (simp add: fallback_to_cpu_if_mps_def cuda_amp_autocast_def)

theorem own_failures_witness:
  "make_graph (zeros (torch_device ''cpu'') [2, 3]) (residues (torch_device ''cpu'') [0, 1])
      (zeros (torch_device ''cpu'') [4]) = Inl ValueError \<and>
   forward (stand_in (torch_device ''cpu'') 2 3 1 2)
       (zeros (torch_device ''cpu'') [1, 2, 21]) (residues (torch_device ''cpu'') [0, 1])
       (zeros (torch_device ''cpu'') [2, 2]) (zeros (torch_device ''cpu'') [1, 2, 2, 1])
     = Inl ValueError"
  using own_failures [of "torch_device ''cpu''" True Autocast True "Func ''forward''"
      "zeros (torch_device ''cpu'') [4]" "zeros (torch_device ''cpu'') [2, 3]"
      "residues (torch_device ''cpu'') [0, 1]" "zeros (torch_device ''cpu'') [2, 2]"
      "stand_in (torch_device ''cpu'') 2 3 1 2" "zeros (torch_device ''cpu'') [1, 2, 21]"
      "residues (torch_device ''cpu'') [0, 1]" "zeros (torch_device ''cpu'') [1, 2, 2, 1]"]
  by simp

text \<open>
  Claim C9, as the specification words it, fails: with an embedding tensor of one
  dimension \<open>make_graph\<close> raises ValueError at its own statement \<open>B, L = emb.shape[:2]\<close>,
  before any operation of the tensor library on \<open>idx\<close> or \<open>node\<close>.
\<close>

theorem make_graph_raises_value_error:
  "make_graph (zeros (torch_device ''mps'') [3]) (residues (torch_device ''mps'') [0, 1, 2])
      (zeros (torch_device ''mps'') [3]) = Inl ValueError"
  by (simp add: make_graph_def fallback_to_cpu_if_mps_def bind_result_def)

section \<open>Paths below a root\<close>

lemma visible_plain: "visible c \<Longrightarrow> plain c"
  by (cases c) (auto simp: visible_def plain_def)

lemma split_on_nonempty [simp]: "split_on c s \<noteq> []"
  by (induction s) (auto split: list.splits)

lemma split_on_plain: "c \<notin> set w \<Longrightarrow> split_on c w = [w]"
  by (induction w) auto

lemma split_on_append:
  "c \<notin> set w \<Longrightarrow> split_on c (w @ c # rest) = w # split_on c rest"
  by (induction w) auto

lemma join_with_Cons:
  "join_with s (w # v # ws) = w @ s @ join_with s (v # ws)"
  by (simp add: join_with_def)

lemma join_with_single [simp]: "join_with s [w] = w"
  by (simp add: join_with_def)

lemma join_with_Nil [simp]: "join_with s [] = []"
  by (simp add: join_with_def)

lemma join_with_append:
  "ws \<noteq> [] \<Longrightarrow> vs \<noteq> [] \<Longrightarrow> join_with s (ws @ vs) = join_with s ws @ s @ join_with s vs"
proof (induction ws)
  case Nil
  then show ?case by simp
next
  case (Cons w ws)
  show ?case
  proof (cases ws)
    case Nil
    with Cons.prems show ?thesis by (cases vs) (simp_all add: join_with_Cons)
  next
    case (Cons u us)
    with Cons.IH Cons.prems show ?thesis by (simp add: join_with_Cons)
  qed
qed

lemma split_on_join:
  "ws \<noteq> [] \<Longrightarrow> \<forall>w \<in> set ws. CHR ''/'' \<notin> set w \<Longrightarrow>
     split_on CHR ''/'' (join_with ''/'' ws) = ws"
proof (induction ws)
  case Nil
  then show ?case by simp
next
  case (Cons w ws)
  show ?case
  proof (cases ws)
    case Nil
    with Cons.prems show ?thesis by (simp add: split_on_plain)
  next
    case (Cons u us)
    with Cons.IH Cons.prems show ?thesis
      by (simp add: join_with_Cons split_on_append)
  qed
qed

lemma components_rooted:
  assumes "\<forall>w \<in> set cs. plain w"
  shows "filter (\<lambda>c. c \<noteq> []) (split_on CHR ''/'' (CHR ''/'' # join_with ''/'' cs)) = cs"
proof (cases cs)
  case Nil
  then show ?thesis by simp
next
  case (Cons c cs')
  have "split_on CHR ''/'' (join_with ''/'' cs) = cs"
    using assms Cons by (intro split_on_join) (auto simp: plain_def)
  moreover have "filter (\<lambda>c. c \<noteq> []) cs = cs"
    using assms by (auto simp: plain_def filter_id_conv)
  ultimately show ?thesis by simp
qed

lemma foldl_norm_step:
  "\<forall>w \<in> set cs. plain w \<Longrightarrow> foldl (norm_step b) acc cs = acc @ cs"
  by (induction cs arbitrary: acc) (auto simp: norm_step_def plain_def)

lemma normpath_rooted:
  assumes "\<forall>w \<in> set cs. plain w"
  shows "normpath (CHR ''/'' # join_with ''/'' cs) = CHR ''/'' # join_with ''/'' cs"
proof -
  have sp: "split_on CHR ''/'' (CHR ''/'' # join_with ''/'' cs) = [] # (if cs = [] then [[]] else cs)"
    using assms split_on_join [of cs] by (auto simp: plain_def)
  have fo: "foldl (norm_step True) [] ([] # (if cs = [] then [[]] else cs)) = cs"
    using foldl_norm_step [OF assms, of True "[]"] by (auto simp: norm_step_def)
  have two: "\<not> startswith (CHR ''/'' # join_with ''/'' cs) ''//''"
  proof (cases cs)
    case Nil
    then show ?thesis by (simp add: startswith_def)
  next
    case (Cons c cs')
    then have "c \<noteq> []" "hd c \<noteq> CHR ''/''"
      using assms by (cases c; auto simp: plain_def)+
    then show ?thesis
      using Cons by (cases c; cases cs') (auto simp: startswith_def join_with_def)
  qed
  have comps: "foldl (norm_step True) [] (split_on CHR ''/'' (CHR ''/'' # join_with ''/'' cs)) = cs"
    by (simp only: sp fo)
  have one: "startswith (CHR ''/'' # join_with ''/'' cs) ''/''"
    by (simp add: startswith_def)
  have slashes: "(if startswith (CHR ''/'' # join_with ''/'' cs) ''/''
       then (if startswith (CHR ''/'' # join_with ''/'' cs) ''//''
                \<and> \<not> startswith (CHR ''/'' # join_with ''/'' cs) ''///'' then 2 else 1)
       else (0 :: nat)) = 1"
    using one two by simp
  show ?thesis
    unfolding normpath_def Let_def slashes
    by (simp add: comps del: split_on.simps)
qed

lemma join_with_last:
  "cs \<noteq> [] \<Longrightarrow> last cs \<noteq> [] \<Longrightarrow>
     join_with s cs \<noteq> [] \<and> last (join_with s cs) = last (last cs)"
proof (induction cs)
  case Nil
  then show ?case by simp
next
  case (Cons c cs)
  show ?case
  proof (cases cs)
    case Nil
    with Cons.prems show ?thesis by simp
  next
    case (Cons u us)
    with Cons.IH Cons.prems show ?thesis by (simp add: join_with_Cons)
  qed
qed

lemma join2_rooted:
  assumes "\<forall>w \<in> set cs. plain w" "\<forall>w \<in> set ps. plain w" "ps \<noteq> []"
  shows "join2 (CHR ''/'' # join_with ''/'' cs) (join_with ''/'' ps)
           = CHR ''/'' # join_with ''/'' (cs @ ps)"
proof -
  obtain p ps' where ps: "ps = p # ps'" using assms(3) by (cases ps) auto
  have "p \<noteq> []" "hd p \<noteq> CHR ''/''"
    using assms(2) ps by (cases p; auto simp: plain_def)+
  then have rel: "\<not> startswith (join_with ''/'' ps) ''/''"
    unfolding ps by (cases p) (auto simp: startswith_def join_with_def)
  show ?thesis
  proof (cases "cs = []")
    case True
    then show ?thesis using rel by (simp add: join2_def)
  next
    case False
    have lc: "last cs \<noteq> []" "CHR ''/'' \<notin> set (last cs)"
      using assms(1) False by (auto simp: plain_def)
    from join_with_last [OF False lc(1), of "''/''"] lc(2)
    have l: "join_with ''/'' cs \<noteq> []" "last (join_with ''/'' cs) \<noteq> CHR ''/''"
      using lc(1) last_in_set by fastforce+
    then show ?thesis
      using rel False assms(3) by (simp add: join2_def join_with_append)
  qed
qed

section \<open>Relative paths and names of the source files\<close>

lemma commonprefix_append: "commonprefix as (as @ bs) = as"
  by (induction as) auto

lemma plain_pyx: "visible stem \<Longrightarrow> plain (stem @ ''.pyx'')"
  by (cases stem) (auto simp: visible_def plain_def)

lemma relpath_pyx:
  assumes cwd: "\<forall>w \<in> set cs. plain w"
    and dirs: "\<forall>w \<in> set dirs. visible w" and stem: "visible stem"
  shows "relpath (CHR ''/'' # join_with ''/'' cs) (pyx_path dirs stem) ''lie_learn''
           = Inr (join_with ''/'' (dirs @ [stem @ ''.pyx'']))"
proof -
  let ?cwd = "CHR ''/'' # join_with ''/'' cs"
  let ?rest = "dirs @ [stem @ ''.pyx'']"
  have pl: "\<forall>w \<in> set (''lie_learn'' # ?rest). plain w"
    using dirs stem by (auto simp: visible_plain plain_pyx) (simp add: plain_def)
  have ll: "\<forall>w \<in> set [''lie_learn'']. plain w" by (simp add: plain_def)
  have ne: "pyx_path dirs stem \<noteq> []"
    by (simp add: pyx_path_def join_with_def)
  have rel1: "\<not> startswith ''lie_learn'' ''/''" by (simp add: startswith_def)
  have rel2: "\<not> startswith (pyx_path dirs stem) ''/''"
    by (simp add: startswith_def pyx_path_def join_with_def)
  have all1: "\<forall>w \<in> set (cs @ [''lie_learn'']). plain w"
    using cwd ll by auto
  have all2: "\<forall>w \<in> set (cs @ ''lie_learn'' # ?rest). plain w"
    using cwd pl by auto
  have j1: "join2 ?cwd ''lie_learn'' = CHR ''/'' # join_with ''/'' (cs @ [''lie_learn''])"
    using join2_rooted [OF cwd ll] by simp
  have j2: "join2 ?cwd (pyx_path dirs stem) = CHR ''/'' # join_with ''/'' (cs @ ''lie_learn'' # ?rest)"
    unfolding pyx_path_def using join2_rooted [OF cwd pl] by simp
  have a1: "abspath ?cwd ''lie_learn'' = CHR ''/'' # join_with ''/'' (cs @ [''lie_learn''])"
    unfolding abspath_def using rel1 j1 normpath_rooted [OF all1] by simp
  have a2: "abspath ?cwd (pyx_path dirs stem)
      = CHR ''/'' # join_with ''/'' (cs @ ''lie_learn'' # ?rest)"
    unfolding abspath_def using rel2 j2 normpath_rooted [OF all2] by simp
  have c1: "filter (\<lambda>c. c \<noteq> []) (split_on CHR ''/'' (abspath ?cwd ''lie_learn''))
      = cs @ [''lie_learn'']"
    unfolding a1 using all1 by (rule components_rooted)
  have c2: "filter (\<lambda>c. c \<noteq> []) (split_on CHR ''/'' (abspath ?cwd (pyx_path dirs stem)))
      = (cs @ [''lie_learn'']) @ ?rest"
    unfolding a2 using components_rooted [OF all2] by simp
  show ?thesis
    unfolding relpath_def Let_def c1 c2 commonprefix_append
    using ne by simp
qed

lemma splitext_pyx:
  assumes dirs: "\<forall>w \<in> set dirs. visible w" and stem: "visible stem"
  shows "splitext (join_with ''/'' (dirs @ [stem @ ''.pyx'']))
           = (join_with ''/'' (dirs @ [stem]), ''.pyx'')"
proof -
  define dirpart where "dirpart = (if dirs = [] then [] else join_with ''/'' dirs @ ''/'')"
  have p: "join_with ''/'' (dirs @ [w]) = dirpart @ w" for w
    by (cases "dirs = []") (simp_all add: dirpart_def join_with_append)
  have ns: "CHR ''/'' \<notin> set stem" "stem \<noteq> []" "hd stem \<noteq> CHR ''.''"
    using stem by (simp_all add: visible_def)
  have dp: "dirpart = [] \<or> last dirpart = CHR ''/''"
    by (simp add: dirpart_def)
  have tw: "takeWhile (\<lambda>c. c \<noteq> CHR ''/'') (rev (dirpart @ stem @ ''.pyx'')) = rev (stem @ ''.pyx'')"
  proof (cases "dirpart = []")
    case True
    then show ?thesis using ns by (auto simp: takeWhile_eq_all_conv)
  next
    case False
    with dp obtain d where "dirpart = d @ ''/''"
      by (metis append_butlast_last_id)
    then show ?thesis using ns by (auto simp: takeWhile_tail)
  qed
  have dw: "dropWhile (\<lambda>c. c \<noteq> CHR ''/'') (rev (dirpart @ stem @ ''.pyx'')) = rev dirpart"
  proof (cases "dirpart = []")
    case True
    then show ?thesis using ns by (auto simp: dropWhile_eq_Nil_conv)
  next
    case False
    with dp obtain d where "dirpart = d @ ''/''"
      by (metis append_butlast_last_id)
    then show ?thesis using ns by (auto simp: dropWhile_append3)
  qed
  have ex: "list_ex (\<lambda>c. c \<noteq> CHR ''.'') stem"
    using ns by (cases stem) auto
  show ?thesis
    unfolding p splitext_def Let_def tw dw
    using ex by simp
qed

lemma replace_join:
  "\<forall>w \<in> set ws. CHR ''/'' \<notin> set w \<Longrightarrow>
     replace CHR ''/'' CHR ''.'' (join_with ''/'' ws) = join_with ''.'' ws"
proof (induction ws)
  case Nil
  then show ?case by (simp add: replace_def)
next
  case (Cons w ws)
  have w: "replace CHR ''/'' CHR ''.'' w = w"
    unfolding replace_def using Cons.prems by (intro map_idI) auto
  show ?case
  proof (cases ws)
    case Nil
    then show ?thesis using w by simp
  next
    case (Cons u us)
    with Cons.IH Cons.prems w show ?thesis
      by (simp add: join_with_Cons replace_def)
  qed
qed

lemma extension_for_pyx:
  assumes cwd: "\<forall>w \<in> set cs. plain w"
    and dirs: "\<forall>w \<in> set dirs. visible w" and stem: "visible stem"
  shows "extension_for (CHR ''/'' # join_with ''/'' cs) np_include (pyx_path dirs stem)
    = Inr \<lparr>name = dotted_name dirs stem,
           sources = [pyx_path dirs stem],
           include_dirs = [np_include],
           libraries = [''lapack'', ''blas''],
           extra_compile_args =
              [''-O3'', ''-DACCELERATE_NEW_LAPACK'', ''-mmacosx-version-min=13.3'',
               ''-DNPY_NO_DEPRECATED_API=NPY_1_7_API_VERSION''],
           extra_link_args =
              [''-framework'', ''Accelerate'', ''-mmacosx-version-min=13.3'',
               ''-Wl,-rpath,/opt/miniconda3/envs/RoseTTAFold-OSX-ARM64/lib'']\<rparr>"
proof -
  have "\<forall>w \<in> set (dirs @ [stem]). CHR ''/'' \<notin> set w"
    using dirs stem by (auto simp: visible_def)
  then have "replace CHR ''/'' CHR ''.'' (join_with ''/'' (dirs @ [stem])) = join_with ''.'' (dirs @ [stem])"
    by (rule replace_join)
  then show ?thesis
    by (simp add: extension_for_def relpath_pyx [OF assms] splitext_pyx [OF dirs stem]
        bind_result_def dotted_name_def)
qed

section \<open>The claim about the build descriptor\<close>

lemma map_result_map:
  "\<forall>a \<in> set as. f (g a) = Inr (h a) \<Longrightarrow> map_result f (map g as) = Inr (map h as)"
  by (induction as) (simp_all add: bind_result_def)

text \<open>
  Claim C7.  Run in a working directory \<open>/c\<^sub>1/.../c\<^sub>n\<close> on the files that the recursive
  search returns, \<open>lie_learn/d\<^sub>1/.../d\<^sub>k/stem.pyx\<close> with no hidden directory or file name,
  the build script returns without an error, with exactly one extension per file, in the
  order of the files.  The extension of a file has that file as its only source, its
  name is \<open>lie_learn.\<close> followed by \<open>d\<^sub>1.....d\<^sub>k.stem\<close>, which is the path relative to
  \<open>lie_learn/\<close> without its extension and with dots for the separators, and its include
  directories, libraries, compile flags and link flags are the same for every file.
\<close>
theorem extensions_one_per_pyx_file:
  assumes "\<forall>w \<in> set cs. plain w"
    and "\<forall>(dirs, stem) \<in> set found. (\<forall>w \<in> set dirs. visible w) \<and> visible stem"
  shows "extensions (CHR ''/'' # join_with ''/'' cs) np_include
           (map (\<lambda>(dirs, stem). pyx_path dirs stem) found)
    = Inr (map (\<lambda>(dirs, stem).
        \<lparr>name = dotted_name dirs stem,
         sources = [pyx_path dirs stem],
         include_dirs = [np_include],
         libraries = [''lapack'', ''blas''],
         extra_compile_args =
           [''-O3'', ''-DACCELERATE_NEW_LAPACK'', ''-mmacosx-version-min=13.3'',
            ''-DNPY_NO_DEPRECATED_API=NPY_1_7_API_VERSION''],
         extra_link_args =
           [''-framework'', ''Accelerate'', ''-mmacosx-version-min=13.3'',
            ''-Wl,-rpath,/opt/miniconda3/envs/RoseTTAFold-OSX-ARM64/lib'']\<rparr>) found)"
  unfolding extensions_def
proof (rule map_result_map, rule ballI)
  fix a assume a: "a \<in> set found"
  obtain dirs stem where ds: "a = (dirs, stem)" by (cases a)
  have "(\<forall>w \<in> set dirs. visible w) \<and> visible stem"
    using assms(2) a ds by auto
  then show "extension_for (CHR ''/'' # join_with ''/'' cs) np_include
      (case a of (dirs, stem) \<Rightarrow> pyx_path dirs stem)
    = Inr (case a of (dirs, stem) \<Rightarrow>
        \<lparr>name = dotted_name dirs stem,
         sources = [pyx_path dirs stem],
         include_dirs = [np_include],
         libraries = [''lapack'', ''blas''],
         extra_compile_args =
           [''-O3'', ''-DACCELERATE_NEW_LAPACK'', ''-mmacosx-version-min=13.3'',
            ''-DNPY_NO_DEPRECATED_API=NPY_1_7_API_VERSION''],
         extra_link_args =
           [''-framework'', ''Accelerate'', ''-mmacosx-version-min=13.3'',
            ''-Wl,-rpath,/opt/miniconda3/envs/RoseTTAFold-OSX-ARM64/lib'']\<rparr>)"
    unfolding ds using extension_for_pyx [OF assms(1), of dirs stem np_include] by simp
qed

theorem extensions_one_per_pyx_file_witness:
  "extensions ''/home/user/RoseTTAFold'' ''/numpy/include''
     [''lie_learn/groups/SO3.pyx'', ''lie_learn/spaces/spherical/quadrature.pyx'',
      ''lie_learn/broadcasting.v2.pyx'']
   = Inr [
      \<lparr>name = ''lie_learn.groups.SO3'',
       sources = [''lie_learn/groups/SO3.pyx''],
       include_dirs = [''/numpy/include''],
       libraries = [''lapack'', ''blas''],
       extra_compile_args =
         [''-O3'', ''-DACCELERATE_NEW_LAPACK'', ''-mmacosx-version-min=13.3'',
          ''-DNPY_NO_DEPRECATED_API=NPY_1_7_API_VERSION''],
       extra_link_args =
         [''-framework'', ''Accelerate'', ''-mmacosx-version-min=13.3'',
          ''-Wl,-rpath,/opt/miniconda3/envs/RoseTTAFold-OSX-ARM64/lib'']\<rparr>,
      \<lparr>name = ''lie_learn.spaces.spherical.quadrature'',
       sources = [''lie_learn/spaces/spherical/quadrature.pyx''],
       include_dirs = [''/numpy/include''],
       libraries = [''lapack'', ''blas''],
       extra_compile_args =
         [''-O3'', ''-DACCELERATE_NEW_LAPACK'', ''-mmacosx-version-min=13.3'',
          ''-DNPY_NO_DEPRECATED_API=NPY_1_7_API_VERSION''],
       extra_link_args =
         [''-framework'', ''Accelerate'', ''-mmacosx-version-min=13.3'',
          ''-Wl,-rpath,/opt/miniconda3/envs/RoseTTAFold-OSX-ARM64/lib'']\<rparr>,
      \<lparr>name = ''lie_learn.broadcasting.v2'',
       sources = [''lie_learn/broadcasting.v2.pyx''],
       include_dirs = [''/numpy/include''],
       libraries = [''lapack'', ''blas''],
       extra_compile_args =
         [''-O3'', ''-DACCELERATE_NEW_LAPACK'', ''-mmacosx-version-min=13.3'',
          ''-DNPY_NO_DEPRECATED_API=NPY_1_7_API_VERSION''],
       extra_link_args =
         [''-framework'', ''Accelerate'', ''-mmacosx-version-min=13.3'',
          ''-Wl,-rpath,/opt/miniconda3/envs/RoseTTAFold-OSX-ARM64/lib'']\<rparr>]"
  using extensions_one_per_pyx_file
    [of "[''home'', ''user'', ''RoseTTAFold'']"
        "[([''groups''], ''SO3''), ([''spaces'', ''spherical''], ''quadrature''),
          ([], ''broadcasting.v2'')]"
        "''/numpy/include''"]
  by (simp add: plain_def visible_def pyx_path_def dotted_name_def join_with_def)

end
